theory Spec2Isabelle
  imports Main
begin

section \<open>Identifiers, payloads and wire messages\<close>

text \<open>
  Connection, session and user identifiers are Python strings in both registries
  (\<^verbatim>\<open>Dict[str, ...]\<close>); a user key is \<^verbatim>\<open>str(user_id)\<close> of a UUID, which is
  injective and never empty. Timestamps are \<^verbatim>\<open>datetime\<close> values, which have microsecond
  resolution: a time is the integer number of microseconds since the epoch.
  The \<^verbatim>\<open>data\<close> field of an inbound message is kept as an uninterpreted string;
  the pydantic validators that read it are functions of the environment below.
\<close>

type_synonym conn_id = string
type_synonym sess_id = string
type_synonym user_key = string
type_synonym raw = string
type_synonym time = int

text \<open>What a call does: it raises, or it returns a value.\<close>

datatype 'a outcome = Raised string | Returned 'a

datatype connection_type = AUTHENTICATED | GUEST

fun connection_type_value :: "connection_type \<Rightarrow> string" where
  "connection_type_value AUTHENTICATED = ''authenticated''"
| "connection_type_value GUEST = ''guest''"

text \<open>\<^verbatim>\<open>models/chat.py\<close>, \<^verbatim>\<open>class ChatMode(str, Enum)\<close>, with the values it declares.\<close>

datatype chat_mode = NORMAL | STREAM | CONTEXT

fun chat_mode_value :: "chat_mode \<Rightarrow> string" where
  "chat_mode_value NORMAL = ''normal''"
| "chat_mode_value STREAM = ''stream''"
| "chat_mode_value CONTEXT = ''context''"

record chat_request =
  req_session_id :: "string option"
  req_role_id :: string
  req_message :: string
  req_mode :: chat_mode

text \<open>
  The answers of the Chat Collaborator are objects of the pydantic classes that its
  signatures name; a record has the fields that the class declares. A field whose value
  is a float, a \<^verbatim>\<open>datetime\<close>, an enum member or a dictionary is not kept in the record:
  reading it gives \<open>PObj\<close>.
\<close>

datatype pyval = PStr string | PInt int | PBool bool | PNone | PObj

type_synonym json_data = "(string \<times> pyval) list"

text \<open>\<^verbatim>\<open>models/chat.py\<close>, \<^verbatim>\<open>class ChatResponse\<close>.\<close>

record chat_response =
  resp_session_id :: string
  resp_message_id :: string
  resp_user_message_id :: string
  resp_content :: string
  resp_role_id :: string
  resp_role_name :: string
  resp_tokens_used :: int

text \<open>\<^verbatim>\<open>models/chat.py\<close>, \<^verbatim>\<open>class StreamChatResponse\<close>.\<close>

record stream_response =
  chunk_session_id :: string
  chunk_message_id :: string
  chunk_content :: string
  chunk_is_complete :: bool
  chunk_tokens_used :: int

text \<open>\<^verbatim>\<open>models/chat.py\<close>, \<^verbatim>\<open>class ChatSessionResponse\<close>, which \<^verbatim>\<open>create_session\<close> returns.\<close>

record session_response =
  new_session_id :: string
  new_title :: string
  new_role_id :: string
  new_role_name :: string
  new_role_avatar :: "string option"
  new_message_count :: int
  new_total_tokens :: int
  new_is_active :: bool

text \<open>\<^verbatim>\<open>models/chat_session.py\<close>, \<^verbatim>\<open>class ChatSessionResponse\<close>, which
  \<^verbatim>\<open>update_session\<close> returns.\<close>

record updated_session =
  upd_id :: string
  upd_title :: string
  upd_role_id :: string
  upd_user_id :: "string option"
  upd_is_active :: bool
  upd_message_count :: int
  upd_total_tokens :: int
  upd_role_name :: "string option"
  upd_role_avatar :: "string option"

text \<open>
  Reading an attribute of such an object: the value of a declared field, or the
  \<^verbatim>\<open>AttributeError\<close> that pydantic raises for any other name.
\<close>

definition no_attribute :: "string \<Rightarrow> string \<Rightarrow> string" where
  "no_attribute cls a = cls @ '' object has no attribute '' @ a"

definition py_optional :: "string option \<Rightarrow> pyval" where
  "py_optional x = (case x of None \<Rightarrow> PNone | Some s \<Rightarrow> PStr s)"

definition chat_response_attr :: "chat_response \<Rightarrow> string \<Rightarrow> string + pyval" where
  "chat_response_attr r a =
     (if a = ''session_id'' then Inr (PStr (resp_session_id r))
      else if a = ''message_id'' then Inr (PStr (resp_message_id r))
      else if a = ''user_message_id'' then Inr (PStr (resp_user_message_id r))
      else if a = ''content'' then Inr (PStr (resp_content r))
      else if a = ''role_id'' then Inr (PStr (resp_role_id r))
      else if a = ''role_name'' then Inr (PStr (resp_role_name r))
      else if a = ''tokens_used'' then Inr (PInt (resp_tokens_used r))
      else if a = ''response_time'' \<or> a = ''created_at'' \<or> a = ''metadata'' then Inr PObj
      else Inl (no_attribute ''ChatResponse'' a))"

definition session_response_attr :: "session_response \<Rightarrow> string \<Rightarrow> string + pyval" where
  "session_response_attr r a =
     (if a = ''session_id'' then Inr (PStr (new_session_id r))
      else if a = ''title'' then Inr (PStr (new_title r))
      else if a = ''role_id'' then Inr (PStr (new_role_id r))
      else if a = ''role_name'' then Inr (PStr (new_role_name r))
      else if a = ''role_avatar'' then Inr (py_optional (new_role_avatar r))
      else if a = ''message_count'' then Inr (PInt (new_message_count r))
      else if a = ''total_tokens'' then Inr (PInt (new_total_tokens r))
      else if a = ''is_active'' then Inr (PBool (new_is_active r))
      else if a = ''last_message_at'' \<or> a = ''created_at'' then Inr PObj
      else Inl (no_attribute ''ChatSessionResponse'' a))"

definition updated_session_attr :: "updated_session \<Rightarrow> string \<Rightarrow> string + pyval" where
  "updated_session_attr r a =
     (if a = ''id'' then Inr (PStr (upd_id r))
      else if a = ''title'' then Inr (PStr (upd_title r))
      else if a = ''role_id'' then Inr (PStr (upd_role_id r))
      else if a = ''user_id'' then Inr (py_optional (upd_user_id r))
      else if a = ''is_active'' then Inr (PBool (upd_is_active r))
      else if a = ''message_count'' then Inr (PInt (upd_message_count r))
      else if a = ''total_tokens'' then Inr (PInt (upd_total_tokens r))
      else if a = ''role_name'' then Inr (py_optional (upd_role_name r))
      else if a = ''role_avatar'' then Inr (py_optional (upd_role_avatar r))
      else if a = ''status'' \<or> a = ''last_message_at'' \<or> a = ''created_at'' then Inr PObj
      else Inl (no_attribute ''ChatSessionResponse'' a))"

text \<open>
  A dictionary display evaluates its entries in order: each entry is a key and the
  attribute read for it, and the first read that raises ends the construction.
\<close>

fun read_attrs :: "(string \<Rightarrow> string + pyval) \<Rightarrow> (string \<times> string) list \<Rightarrow> string + json_data" where
  "read_attrs get [] = Inr []"
| "read_attrs get ((key, a) # rest) =
     (case get a of
        Inl e \<Rightarrow> Inl e
      | Inr v \<Rightarrow>
          (case read_attrs get rest of
             Inl e \<Rightarrow> Inl e
           | Inr kvs \<Rightarrow> Inr ((key, v) # kvs)))"

text \<open>
  The outbound JSON objects, one constructor per \<^verbatim>\<open>type\<close> value that either
  implementation writes; the three that copy a collaborator's answer carry their
  \<^verbatim>\<open>data\<close> dictionary, and a stream chunk carries the chunk (every attribute read from
  it is declared). The \<^verbatim>\<open>timestamp\<close> field that every object carries is the wall clock
  at the moment of sending and is left out.
\<close>

datatype message =
    Msg_connect conn_id string
  | Msg_pong
  | Msg_chat_response json_data
  | Msg_chat_stream stream_response
  | Msg_chat_error string
  | Msg_session_create json_data
  | Msg_session_update json_data
  | Msg_session_delete sess_id
  | Msg_error string
  | Msg_connection_established conn_id sess_id
  | Msg_heartbeat_ack
  | Msg_heartbeat_request

text \<open>
  A socket is what was done to it: the frames handed to \<^verbatim>\<open>send_text\<close>, each with
  whether the call returned (\<open>True\<close>) or raised (\<open>False\<close>), and the calls of \<^verbatim>\<open>close\<close>.
\<close>

type_synonym frame = "message \<times> bool"

record websocket =
  frames :: "frame list"
  close_calls :: "(int \<times> string) list"

definition received :: "websocket \<Rightarrow> message list" where
  "received ws = map fst (filter snd (frames ws))"

definition sent_to :: "websocket \<Rightarrow> message list" where
  "sent_to ws = map fst (frames ws)"

text \<open>An inbound message after \<^verbatim>\<open>json.loads\<close>: a JSON object with its \<^verbatim>\<open>type\<close> and
  \<^verbatim>\<open>data\<close> entries, or some other JSON value (on which \<^verbatim>\<open>message.get\<close> raises).\<close>

datatype inbound = Dict_msg "string option" raw | Non_dict

section \<open>The environment: transport and collaborators\<close>

text \<open>
  Everything outside the connection layer is a function of the environment. A transport
  call answers \<open>True\<close> when it returns and \<open>False\<close> when it raises; \<open>ws_send_text\<close> may
  depend on the frames the socket has seen. A collaborator call answers \<open>Inl e\<close> when it
  raises an exception whose text is \<open>e\<close>, and \<open>Inr x\<close> when it returns the object \<open>x\<close>, an
  instance of the class that its signature names. A stream is the chunks it yields and,
  when the generator raises after them, the error.
\<close>

record env =
  ws_accept :: "conn_id \<Rightarrow> bool"
  ws_send_text :: "conn_id \<Rightarrow> frame list \<Rightarrow> message \<Rightarrow> bool"
  get_current_user :: "string \<Rightarrow> string + user_key option"
  parse_chat_request :: "raw \<Rightarrow> string + chat_request"
  chat_send_message ::
    "chat_request \<Rightarrow> user_key option \<Rightarrow> string option \<Rightarrow> string + chat_response"
  chat_stream_message ::
    "chat_request \<Rightarrow> user_key option \<Rightarrow> string option \<Rightarrow> stream_response list \<times> string option"
  parse_session_create :: "raw \<Rightarrow> string + raw"
  chat_create_session :: "raw \<Rightarrow> user_key option \<Rightarrow> string + session_response"
  parse_session_update :: "raw \<Rightarrow> string + (string \<times> raw)"
  chat_update_session ::
    "string \<Rightarrow> raw \<Rightarrow> user_key option \<Rightarrow> string option \<Rightarrow> string + updated_session option"
  parse_session_delete :: "raw \<Rightarrow> string + string"
  chat_delete_session :: "string \<Rightarrow> user_key option \<Rightarrow> string option \<Rightarrow> string + bool"

definition ws_write :: "env \<Rightarrow> conn_id \<Rightarrow> message \<Rightarrow> websocket \<Rightarrow> bool \<times> websocket" where
  "ws_write env c m ws =
     (let ok = ws_send_text env c (frames ws) m
      in (ok, ws\<lparr>frames := frames ws @ [(m, ok)]\<rparr>))"

section \<open>Python sets and dictionaries\<close>

text \<open>
  A Python set of identifiers is a duplicate-free list, the order being the order in which
  a \<^verbatim>\<open>for\<close> loop visits it; no theorem below depends on that order. An index is a
  dictionary from a key to such a set.
\<close>

type_synonym 'k index = "'k \<rightharpoonup> conn_id list"

definition index_add :: "'k index \<Rightarrow> 'k \<Rightarrow> conn_id \<Rightarrow> 'k index" where
  \<comment> \<open>\<^verbatim>\<open>if k not in d: d[k] = set()\<close>, then \<^verbatim>\<open>d[k].add(c)\<close>\<close>
  "index_add d k c = d(k \<mapsto> List.insert c (case d k of None \<Rightarrow> [] | Some cs \<Rightarrow> cs))"

definition index_discard :: "'k index \<Rightarrow> 'k \<Rightarrow> conn_id \<Rightarrow> 'k index" where
  \<comment> \<open>\<^verbatim>\<open>if k in d: d[k].discard(c)\<close>, then \<^verbatim>\<open>if not d[k]: del d[k]\<close>\<close>
  "index_discard d k c =
     (case d k of
        None \<Rightarrow> d
      | Some cs \<Rightarrow> (if removeAll c cs = [] then d(k := None) else d(k \<mapsto> removeAll c cs)))"

definition members :: "'k index \<Rightarrow> 'k \<Rightarrow> conn_id list" where
  \<comment> \<open>\<^verbatim>\<open>d.get(k, set())\<close>\<close>
  "members d k = (case d k of None \<Rightarrow> [] | Some cs \<Rightarrow> cs)"

definition dict_set_key :: "'k list \<Rightarrow> 'k \<Rightarrow> 'k list" where
  \<comment> \<open>the keys of a dictionary after \<^verbatim>\<open>d[k] = v\<close>\<close>
  "dict_set_key ks k = (if k \<in> set ks then ks else ks @ [k])"

definition truthy :: "string \<Rightarrow> bool" where
  \<comment> \<open>the truth value of a Python string\<close>
  "truthy s = (s \<noteq> [])"

definition str_optional :: "string option \<Rightarrow> string" where
  \<comment> \<open>\<^verbatim>\<open>str(x)\<close> of an \<^verbatim>\<open>Optional[UUID]\<close>\<close>
  "str_optional x = (case x of None \<Rightarrow> ''None'' | Some u \<Rightarrow> u)"

section \<open>\<^verbatim>\<open>services/websocket_service.py\<close>\<close>

subsection \<open>\<^verbatim>\<open>WebSocketConnection\<close>\<close>

record ws_connection =
  websocket :: websocket
  connection_id :: conn_id
  conn_type :: connection_type
  user_id :: "user_key option"
  session_token :: "string option"
  connected_at :: time
  last_ping :: time
  is_active :: bool
  subscribed_sessions :: "sess_id list"

definition send_message :: "env \<Rightarrow> message \<Rightarrow> ws_connection \<Rightarrow> bool outcome \<times> ws_connection" where
  "send_message env m conn =
     (if is_active conn then
        (case ws_write env (connection_id conn) m (websocket conn) of
           (True, ws) \<Rightarrow> (Returned True, conn\<lparr>websocket := ws\<rparr>)
         | (False, ws) \<Rightarrow> (Returned False, conn\<lparr>websocket := ws, is_active := False\<rparr>))
      else (Returned False, conn))"

definition close_conn :: "int \<Rightarrow> string \<Rightarrow> ws_connection \<Rightarrow> ws_connection" where
  \<comment> \<open>an exception of \<^verbatim>\<open>websocket.close\<close> is swallowed; \<^verbatim>\<open>finally\<close> clears the flag\<close>
  "close_conn code reason conn =
     (if is_active conn
      then conn\<lparr>websocket := (websocket conn)
                  \<lparr>close_calls := close_calls (websocket conn) @ [(code, reason)]\<rparr>,
                is_active := False\<rparr>
      else conn\<lparr>is_active := False\<rparr>)"

subsection \<open>\<^verbatim>\<open>WebSocketService\<close>: state\<close>

text \<open>
  \<^verbatim>\<open>self.connections\<close> maps an identifier to a \<^verbatim>\<open>WebSocketConnection\<close> object, and
  handlers keep such objects after the dictionary has dropped them. The objects live in
  a store addressed by their identifier (one object per identifier:
  \<^verbatim>\<open>websocket/routes.py\<close> draws each identifier with \<^verbatim>\<open>uuid.uuid4()\<close>), and the
  dictionary is the list of its keys in insertion order.
\<close>

record service =
  objects :: "conn_id \<rightharpoonup> ws_connection"
  connections :: "conn_id list"
  user_connections :: "user_key index"
  session_connections :: "sess_id index"
  heartbeat_interval :: int
  heartbeat_timeout :: int

definition init_service :: service where
  "init_service =
     \<lparr>objects = Map.empty, connections = [], user_connections = Map.empty,
      session_connections = Map.empty, heartbeat_interval = 30, heartbeat_timeout = 60\<rparr>"

definition registry_get :: "service \<Rightarrow> conn_id \<Rightarrow> ws_connection option" where
  \<comment> \<open>\<^verbatim>\<open>self.connections.get(connection_id)\<close>\<close>
  "registry_get st c = (if c \<in> set (connections st) then objects st c else None)"

definition conn_send :: "env \<Rightarrow> conn_id \<Rightarrow> message \<Rightarrow> service \<Rightarrow> bool outcome \<times> service" where
  \<comment> \<open>\<^verbatim>\<open>connection.send_message(m)\<close> on the object at \<open>c\<close>; a handle always has an object\<close>
  "conn_send env c m st =
     (case objects st c of
        None \<Rightarrow> (Returned False, st)
      | Some conn \<Rightarrow>
          (case send_message env m conn of
             (r, conn') \<Rightarrow> (r, st\<lparr>objects := (objects st)(c \<mapsto> conn')\<rparr>)))"

subsection \<open>\<^verbatim>\<open>connect\<close> and \<^verbatim>\<open>disconnect\<close>\<close>

definition connect ::
  "env \<Rightarrow> time \<Rightarrow> conn_id \<Rightarrow> string option \<Rightarrow> string option \<Rightarrow> service
     \<Rightarrow> ws_connection option outcome \<times> service" where
  "connect env now c token stoken st =
     (if \<not> ws_accept env c then (Returned None, st)
      else
        let uid = (case token of
                     None \<Rightarrow> None
                   | Some t \<Rightarrow>
                       (if truthy t
                        then (case get_current_user env t of Inl e \<Rightarrow> None | Inr u \<Rightarrow> u)
                        else None));
            ctype = (if uid = None then GUEST else AUTHENTICATED);
            conn = \<lparr>websocket = \<lparr>frames = [], close_calls = []\<rparr>, connection_id = c,
                    conn_type = ctype, user_id = uid, session_token = stoken,
                    connected_at = now, last_ping = now, is_active = True,
                    subscribed_sessions = []\<rparr>;
            uc = (case uid of
                    None \<Rightarrow> user_connections st
                  | Some u \<Rightarrow> index_add (user_connections st) u c);
            conn' = snd (send_message env (Msg_connect c (connection_type_value ctype)) conn)
        in (Returned (Some conn'),
            st\<lparr>objects := (objects st)(c \<mapsto> conn'),
               connections := dict_set_key (connections st) c,
               user_connections := uc\<rparr>))"

definition disconnect :: "conn_id \<Rightarrow> service \<Rightarrow> unit outcome \<times> service" where
  "disconnect c st =
     (case registry_get st c of
        None \<Rightarrow> (Returned (), st)
      | Some conn \<Rightarrow>
          let uc = (case user_id conn of
                      None \<Rightarrow> user_connections st
                    | Some u \<Rightarrow> index_discard (user_connections st) u c);
              sc = fold (\<lambda>s d. index_discard d s c) (subscribed_sessions conn)
                     (session_connections st)
          in (Returned (),
              st\<lparr>objects := (objects st)(c \<mapsto> close_conn 1000 ''Normal closure'' conn),
                 connections := removeAll c (connections st),
                 user_connections := uc,
                 session_connections := sc\<rparr>))"

subsection \<open>Subscriptions and broadcast\<close>

definition subscribe_session :: "conn_id \<Rightarrow> sess_id \<Rightarrow> service \<Rightarrow> bool \<times> service" where
  "subscribe_session c s st =
     (case registry_get st c of
        None \<Rightarrow> (False, st)
      | Some conn \<Rightarrow>
          (True,
           st\<lparr>session_connections := index_add (session_connections st) s c,
              objects := (objects st)
                (c \<mapsto> conn\<lparr>subscribed_sessions := List.insert s (subscribed_sessions conn)\<rparr>)\<rparr>))"

definition unsubscribe_session :: "conn_id \<Rightarrow> sess_id \<Rightarrow> service \<Rightarrow> bool \<times> service" where
  "unsubscribe_session c s st =
     (case registry_get st c of
        None \<Rightarrow> (False, st)
      | Some conn \<Rightarrow>
          (True,
           st\<lparr>session_connections := index_discard (session_connections st) s c,
              objects := (objects st)
                (c \<mapsto> conn\<lparr>subscribed_sessions := removeAll s (subscribed_sessions conn)\<rparr>)\<rparr>))"

definition excluded :: "conn_id option \<Rightarrow> conn_id \<Rightarrow> bool" where
  \<comment> \<open>\<^verbatim>\<open>exclude_connection and connection_id == exclude_connection\<close>\<close>
  "excluded excl c = (case excl of None \<Rightarrow> False | Some x \<Rightarrow> truthy x \<and> c = x)"

definition broadcast_one :: "env \<Rightarrow> message \<Rightarrow> conn_id option \<Rightarrow> conn_id \<Rightarrow> service \<Rightarrow> service" where
  \<comment> \<open>one turn of the loop of \<^verbatim>\<open>broadcast_to_session\<close>\<close>
  "broadcast_one env m excl c st =
     (if excluded excl c then st
      else (case registry_get st c of
              None \<Rightarrow> st
            | Some conn \<Rightarrow> (if is_active conn then snd (conn_send env c m st) else st)))"

definition broadcast_to_session ::
  "env \<Rightarrow> sess_id \<Rightarrow> message \<Rightarrow> conn_id option \<Rightarrow> service \<Rightarrow> service" where
  "broadcast_to_session env s m excl st =
     fold (broadcast_one env m excl) (members (session_connections st) s) st"

subsection \<open>Message handlers\<close>

definition send_error :: "env \<Rightarrow> conn_id \<Rightarrow> string \<Rightarrow> service \<Rightarrow> service" where
  \<comment> \<open>\<^verbatim>\<open>_send_error\<close>\<close>
  "send_error env c e st =
     (case registry_get st c of
        None \<Rightarrow> st
      | Some conn \<Rightarrow> snd (conn_send env c (Msg_error e) st))"

definition handle_ping :: "env \<Rightarrow> time \<Rightarrow> ws_connection \<Rightarrow> service \<Rightarrow> service" where
  "handle_ping env now conn st =
     (let c = connection_id conn;
          st1 = st\<lparr>objects := (objects st)(c := map_option (\<lambda>x. x\<lparr>last_ping := now\<rparr>) (objects st c))\<rparr>
      in snd (conn_send env c Msg_pong st1))"

definition stream_requested :: "chat_request \<Rightarrow> bool" where
  \<comment> \<open>\<^verbatim>\<open>chat_request.mode and chat_request.mode.value == "STREAM"\<close>\<close>
  "stream_requested req =
     (truthy (chat_mode_value (req_mode req)) \<and> chat_mode_value (req_mode req) = ''STREAM'')"

definition broadcast_stream ::
  "env \<Rightarrow> sess_id \<Rightarrow> stream_response list \<Rightarrow> service \<Rightarrow> service" where
  \<comment> \<open>the body of \<^verbatim>\<open>async for stream_response in ...\<close>, once per chunk\<close>
  "broadcast_stream env s chunks st =
     fold (\<lambda>ch. broadcast_to_session env s (Msg_chat_stream ch) None) chunks st"

definition chat_response_frame :: "chat_response \<Rightarrow> string + message" where
  \<comment> \<open>\<^verbatim>\<open>response_message = {...}\<close> of \<^verbatim>\<open>_handle_chat_message\<close>, inside its \<^verbatim>\<open>try\<close>\<close>
  "chat_response_frame r =
     (case read_attrs (chat_response_attr r)
             [(''session_id'', ''session_id''), (''user_message_id'', ''user_message_id''),
              (''ai_message_id'', ''ai_message_id''), (''ai_role_name'', ''ai_role_name''),
              (''content'', ''content''), (''tokens_used'', ''tokens_used''),
              (''response_time'', ''response_time''), (''metadata'', ''metadata''),
              (''timestamp'', ''timestamp'')] of
        Inl e \<Rightarrow> Inl e
      | Inr kvs \<Rightarrow> Inr (Msg_chat_response kvs))"

definition session_create_frame :: "session_response \<Rightarrow> string + message" where
  \<comment> \<open>the dictionary that \<^verbatim>\<open>_handle_session_create\<close> sends, built inside its \<^verbatim>\<open>try\<close>\<close>
  "session_create_frame r =
     (case read_attrs (session_response_attr r)
             [(''session_id'', ''session_id''), (''session_token'', ''session_token''),
              (''title'', ''title''), (''ai_role'', ''ai_role''),
              (''created_at'', ''created_at'')] of
        Inl e \<Rightarrow> Inl e
      | Inr kvs \<Rightarrow> Inr (Msg_session_create kvs))"

definition session_update_frame :: "updated_session \<Rightarrow> string + message" where
  \<comment> \<open>\<^verbatim>\<open>update_message = {...}\<close> of \<^verbatim>\<open>_handle_session_update\<close>, inside its \<^verbatim>\<open>try\<close>\<close>
  "session_update_frame r =
     (case read_attrs (updated_session_attr r)
             [(''session_id'', ''id''), (''title'', ''title''), (''is_active'', ''is_active''),
              (''session_status'', ''session_status''), (''updated_at'', ''updated_at'')] of
        Inl e \<Rightarrow> Inl e
      | Inr kvs \<Rightarrow> Inr (Msg_session_update kvs))"

definition handle_chat_message :: "env \<Rightarrow> ws_connection \<Rightarrow> raw \<Rightarrow> service \<Rightarrow> service" where
  "handle_chat_message env conn d st =
     (let c = connection_id conn in
      case parse_chat_request env d of
        Inl e \<Rightarrow> snd (conn_send env c (Msg_chat_error e) st)
      | Inr req \<Rightarrow>
          let s = str_optional (req_session_id req);
              st1 = snd (subscribe_session c s st)
          in if stream_requested req then
               (case chat_stream_message env req (user_id conn) (session_token conn) of
                  (chunks, err) \<Rightarrow>
                    let st2 = broadcast_stream env s chunks st1
                    in (case err of
                          None \<Rightarrow> st2
                        | Some e \<Rightarrow> snd (conn_send env c (Msg_chat_error e) st2)))
             else
               (case chat_send_message env req (user_id conn) (session_token conn) of
                  Inl e \<Rightarrow> snd (conn_send env c (Msg_chat_error e) st1)
                | Inr resp \<Rightarrow>
                    (case chat_response_frame resp of
                       Inl e \<Rightarrow> snd (conn_send env c (Msg_chat_error e) st1)
                     | Inr m \<Rightarrow> broadcast_to_session env s m None st1)))"

definition handle_session_create :: "env \<Rightarrow> ws_connection \<Rightarrow> raw \<Rightarrow> service \<Rightarrow> service" where
  "handle_session_create env conn d st =
     (let c = connection_id conn in
      case parse_session_create env d of
        Inl e \<Rightarrow> snd (conn_send env c (Msg_error (''session create failed: '' @ e)) st)
      | Inr spec \<Rightarrow>
          (case chat_create_session env spec (user_id conn) of
             Inl e \<Rightarrow> snd (conn_send env c (Msg_error (''session create failed: '' @ e)) st)
           | Inr resp \<Rightarrow>
               (let st1 = snd (subscribe_session c (new_session_id resp) st)
                in case session_create_frame resp of
                     Inl e \<Rightarrow>
                       snd (conn_send env c (Msg_error (''session create failed: '' @ e)) st1)
                   | Inr m \<Rightarrow> snd (conn_send env c m st1))))"

definition handle_session_update :: "env \<Rightarrow> ws_connection \<Rightarrow> raw \<Rightarrow> service \<Rightarrow> service" where
  "handle_session_update env conn d st =
     (let c = connection_id conn in
      case parse_session_update env d of
        Inl e \<Rightarrow> snd (conn_send env c (Msg_error (''session update failed: '' @ e)) st)
      | Inr (s, upd) \<Rightarrow>
          (case chat_update_session env s upd (user_id conn) (session_token conn) of
             Inl e \<Rightarrow> snd (conn_send env c (Msg_error (''session update failed: '' @ e)) st)
           | Inr None \<Rightarrow> snd (conn_send env c (Msg_error ''session update failed'') st)
           | Inr (Some u) \<Rightarrow>
               (case session_update_frame u of
                  Inl e \<Rightarrow>
                    snd (conn_send env c (Msg_error (''session update failed: '' @ e)) st)
                | Inr m \<Rightarrow> broadcast_to_session env s m None st)))"

definition handle_session_delete :: "env \<Rightarrow> ws_connection \<Rightarrow> raw \<Rightarrow> service \<Rightarrow> service" where
  "handle_session_delete env conn d st =
     (let c = connection_id conn in
      case parse_session_delete env d of
        Inl e \<Rightarrow> snd (conn_send env c (Msg_error (''session delete failed: '' @ e)) st)
      | Inr s \<Rightarrow>
          (case chat_delete_session env s (user_id conn) (session_token conn) of
             Inl e \<Rightarrow> snd (conn_send env c (Msg_error (''session delete failed: '' @ e)) st)
           | Inr False \<Rightarrow> snd (conn_send env c (Msg_error ''session delete failed'') st)
           | Inr True \<Rightarrow>
               (let st1 = broadcast_to_session env s (Msg_session_delete s) None st
                in st1\<lparr>session_connections := (session_connections st1)(s := None)\<rparr>)))"

definition handle_message ::
  "env \<Rightarrow> time \<Rightarrow> conn_id \<Rightarrow> inbound \<Rightarrow> service \<Rightarrow> unit outcome \<times> service" where
  "handle_message env now c msg st =
     (case registry_get st c of
        None \<Rightarrow> (Returned (), st)
      | Some conn \<Rightarrow>
          if \<not> is_active conn then (Returned (), st)
          else
            (case msg of
               Non_dict \<Rightarrow> (Returned (), send_error env c ''message handling failed'' st)
             | Dict_msg ty d \<Rightarrow>
                 (Returned (),
                  if ty = Some ''ping'' then handle_ping env now conn st
                  else if ty = Some ''chat_message'' then handle_chat_message env conn d st
                  else if ty = Some ''session_create'' then handle_session_create env conn d st
                  else if ty = Some ''session_update'' then handle_session_update env conn d st
                  else if ty = Some ''session_delete'' then handle_session_delete env conn d st
                  else snd (conn_send env c (Msg_error ''Unknown message type'') st))))"

subsection \<open>The heartbeat monitor\<close>

definition usec :: int where
  "usec = 1000000"

definition timed_out :: "service \<Rightarrow> time \<Rightarrow> conn_id \<Rightarrow> bool" where
  \<comment> \<open>\<^verbatim>\<open>(current_time - connection.last_ping).total_seconds() > self.heartbeat_timeout\<close>\<close>
  "timed_out st now c =
     (case objects st c of
        None \<Rightarrow> False
      | Some conn \<Rightarrow> now - last_ping conn > heartbeat_timeout st * usec)"

definition heartbeat_sweep :: "time \<Rightarrow> service \<Rightarrow> service" where
  \<comment> \<open>one turn of \<^verbatim>\<open>while True\<close> in \<^verbatim>\<open>_heartbeat_monitor\<close>, after the sleep\<close>
  "heartbeat_sweep now st =
     fold (\<lambda>c s. snd (disconnect c s)) (filter (timed_out st now) (connections st)) st"

section \<open>\<^verbatim>\<open>websocket/manager.py\<close>\<close>

subsection \<open>\<^verbatim>\<open>ConnectionManager\<close>: state\<close>

record metadata =
  meta_session_id :: sess_id
  meta_user_id :: "string option"
  meta_connected_at :: time
  last_heartbeat :: time

text \<open>
  \<^verbatim>\<open>active_connections\<close> maps an identifier to its socket and is never iterated;
  \<^verbatim>\<open>heartbeat_tasks\<close> is used for its keys only.
\<close>

record manager =
  active_connections :: "conn_id \<rightharpoonup> websocket"
  session_subscriptions :: "sess_id index"
  connection_metadata :: "conn_id \<rightharpoonup> metadata"
  heartbeat_tasks :: "conn_id set"

definition init_manager :: manager where
  "init_manager =
     \<lparr>active_connections = Map.empty, session_subscriptions = Map.empty,
      connection_metadata = Map.empty, heartbeat_tasks = {}\<rparr>"

subsection \<open>Operations\<close>

definition mgr_disconnect :: "conn_id \<Rightarrow> manager \<Rightarrow> unit outcome \<times> manager" where
  "mgr_disconnect c st =
     (let subs = (case connection_metadata st c of
                    None \<Rightarrow> session_subscriptions st
                  | Some md \<Rightarrow>
                      (if truthy (meta_session_id md)
                       then index_discard (session_subscriptions st) (meta_session_id md) c
                       else session_subscriptions st))
      in (Returned (),
          st\<lparr>heartbeat_tasks := heartbeat_tasks st - {c},
             session_subscriptions := subs,
             active_connections := (active_connections st)(c := None),
             connection_metadata := (connection_metadata st)(c := None)\<rparr>))"

definition send_personal_message ::
  "env \<Rightarrow> conn_id \<Rightarrow> message \<Rightarrow> manager \<Rightarrow> unit outcome \<times> manager" where
  \<comment> \<open>the function has no \<^verbatim>\<open>return\<close>: its value is \<^verbatim>\<open>None\<close> on every path\<close>
  "send_personal_message env c m st =
     (case active_connections st c of
        None \<Rightarrow> (Returned (), st)
      | Some ws \<Rightarrow>
          (case ws_write env c m ws of
             (True, ws') \<Rightarrow>
               (Returned (), st\<lparr>active_connections := (active_connections st)(c \<mapsto> ws')\<rparr>)
           | (False, ws') \<Rightarrow>
               mgr_disconnect c (st\<lparr>active_connections := (active_connections st)(c \<mapsto> ws')\<rparr>)))"

definition mgr_connect ::
  "env \<Rightarrow> time \<Rightarrow> conn_id \<Rightarrow> sess_id \<Rightarrow> string option \<Rightarrow> manager
     \<Rightarrow> bool outcome \<times> manager" where
  "mgr_connect env now c s uid st =
     (if \<not> ws_accept env c then (Returned False, st)
      else
        let st1 = st\<lparr>active_connections :=
                       (active_connections st)(c \<mapsto> \<lparr>frames = [], close_calls = []\<rparr>),
                     connection_metadata :=
                       (connection_metadata st)
                         (c \<mapsto> \<lparr>meta_session_id = s, meta_user_id = uid,
                                meta_connected_at = now, last_heartbeat = now\<rparr>),
                     session_subscriptions := index_add (session_subscriptions st) s c,
                     heartbeat_tasks := insert c (heartbeat_tasks st)\<rparr>
        in (Returned True,
            snd (send_personal_message env c (Msg_connection_established c s) st1)))"

definition mgr_broadcast_one ::
  "env \<Rightarrow> message \<Rightarrow> conn_id option \<Rightarrow> conn_id \<Rightarrow> manager \<Rightarrow> manager" where
  "mgr_broadcast_one env m excl c st =
     (if excluded excl c then st else snd (send_personal_message env c m st))"

definition mgr_broadcast_to_session ::
  "env \<Rightarrow> sess_id \<Rightarrow> message \<Rightarrow> conn_id option \<Rightarrow> manager \<Rightarrow> manager" where
  \<comment> \<open>the loop runs over a copy of the subscriber set taken before the first send\<close>
  "mgr_broadcast_to_session env s m excl st =
     (case session_subscriptions st s of
        None \<Rightarrow> st
      | Some cs \<Rightarrow> fold (mgr_broadcast_one env m excl) cs st)"

definition mgr_handle_message ::
  "env \<Rightarrow> time \<Rightarrow> conn_id \<Rightarrow> inbound option \<Rightarrow> manager \<Rightarrow> manager" where
  \<comment> \<open>\<open>None\<close>: \<^verbatim>\<open>json.loads\<close> raised; every exception is logged and dropped\<close>
  "mgr_handle_message env now c msg st =
     (case msg of
        None \<Rightarrow> st
      | Some Non_dict \<Rightarrow> st
      | Some (Dict_msg ty d) \<Rightarrow>
          if ty = Some ''heartbeat'' then
            snd (send_personal_message env c Msg_heartbeat_ack
                   (st\<lparr>connection_metadata :=
                         (connection_metadata st)
                           (c := map_option (\<lambda>md. md\<lparr>last_heartbeat := now\<rparr>)
                                   (connection_metadata st c))\<rparr>))
          else if ty = Some ''ping'' then snd (send_personal_message env c Msg_pong st)
          else st)"

definition mgr_heartbeat_interval :: int where
  \<comment> \<open>\<^verbatim>\<open>await asyncio.sleep(30)\<close>\<close>
  "mgr_heartbeat_interval = 30"

definition mgr_heartbeat_timeout :: int where
  \<comment> \<open>\<^verbatim>\<open>if time_diff > 60\<close>\<close>
  "mgr_heartbeat_timeout = 60"

definition mgr_heartbeat_tick :: "env \<Rightarrow> time \<Rightarrow> conn_id \<Rightarrow> manager \<Rightarrow> bool \<times> manager" where
  \<comment> \<open>one turn of the loop of \<^verbatim>\<open>_heartbeat_loop\<close>, \<open>now\<close> being the clock after the
      sleep; the flag says whether the loop goes on to its next test\<close>
  "mgr_heartbeat_tick env now c st =
     (if c \<notin> dom (active_connections st) then (False, st)
      else (case connection_metadata st c of
              None \<Rightarrow> (False, st)
            | Some md \<Rightarrow>
                (if now - last_heartbeat md > mgr_heartbeat_timeout * usec
                 then (False, snd (mgr_disconnect c st))
                 else (True, snd (send_personal_message env c Msg_heartbeat_request st)))))"

section \<open>Invariants and reachable states\<close>

subsection \<open>Indices\<close>

definition no_empty :: "'k index \<Rightarrow> bool" where
  \<comment> \<open>no key is mapped to the empty set\<close>
  "no_empty d = (\<forall>k cs. d k = Some cs \<longrightarrow> cs \<noteq> [])"

definition all_distinct :: "'k index \<Rightarrow> bool" where
  \<comment> \<open>every list stands for a set\<close>
  "all_distinct d = (\<forall>k cs. d k = Some cs \<longrightarrow> distinct cs)"

subsection \<open>The service\<close>

definition idx_sound :: "service \<Rightarrow> bool" where
  \<comment> \<open>an identifier in an index is registered, and its object knows the entry\<close>
  "idx_sound st =
     ((\<forall>s. \<forall>c \<in> set (members (session_connections st) s).
          \<exists>conn. registry_get st c = Some conn \<and> s \<in> set (subscribed_sessions conn)) \<and>
      (\<forall>u. \<forall>c \<in> set (members (user_connections st) u).
          \<exists>conn. registry_get st c = Some conn \<and> user_id conn = Some u))"

definition store_ok :: "service \<Rightarrow> bool" where
  \<comment> \<open>a registered identifier has its object; an object sits at its own identifier and,
      once out of the registry, is closed\<close>
  "store_ok st =
     ((\<forall>c \<in> set (connections st). objects st c \<noteq> None) \<and>
      (\<forall>c conn. objects st c = Some conn \<longrightarrow>
          connection_id conn = c \<and> (c \<notin> set (connections st) \<longrightarrow> \<not> is_active conn)))"

definition svc_inv :: "service \<Rightarrow> bool" where
  "svc_inv st =
     (idx_sound st \<and> store_ok st \<and>
      all_distinct (session_connections st) \<and> all_distinct (user_connections st))"

definition tidy :: "service \<Rightarrow> bool" where
  \<comment> \<open>neither index of the service keeps a key with an empty set\<close>
  "tidy st = (no_empty (session_connections st) \<and> no_empty (user_connections st))"

definition implemented_config :: "service \<Rightarrow> bool" where
  \<comment> \<open>the two values that \<^verbatim>\<open>__init__\<close> assigns and nothing changes\<close>
  "implemented_config st = (heartbeat_interval st = 30 \<and> heartbeat_timeout st = 60)"

definition after_broadcast :: "env \<Rightarrow> message \<Rightarrow> ws_connection \<Rightarrow> ws_connection" where
  \<comment> \<open>what one turn of the loop of \<^verbatim>\<open>broadcast_to_session\<close> does to the registered
      object it visits\<close>
  "after_broadcast env m conn = (if is_active conn then snd (send_message env m conn) else conn)"

definition obj_step :: "ws_connection \<Rightarrow> ws_connection \<Rightarrow> bool" where
  \<comment> \<open>what sending and pinging may do to an object\<close>
  "obj_step a b =
     (connection_id b = connection_id a \<and> user_id b = user_id a \<and>
      session_token b = session_token a \<and>
      subscribed_sessions b = subscribed_sessions a \<and> (is_active b \<longrightarrow> is_active a))"

definition sends_only :: "service \<Rightarrow> service \<Rightarrow> bool" where
  \<comment> \<open>the second state differs from the first by sends and pings only\<close>
  "sends_only st st' =
     (connections st' = connections st \<and> user_connections st' = user_connections st \<and>
      session_connections st' = session_connections st \<and>
      heartbeat_interval st' = heartbeat_interval st \<and>
      heartbeat_timeout st' = heartbeat_timeout st \<and>
      (\<forall>c. rel_option obj_step (objects st c) (objects st' c)))"

text \<open>
  The states the service can be in: it starts empty, and every public operation may run at
  any moment, in any environment. \<^verbatim>\<open>connect\<close> is called with an identifier that is not
  registered (\<^verbatim>\<open>websocket/routes.py\<close> draws a fresh \<^verbatim>\<open>uuid4\<close> for every socket).
\<close>

inductive reachable :: "service \<Rightarrow> bool" where
  reach_init: "reachable init_service"
| reach_connect:
    "reachable st \<Longrightarrow> c \<notin> set (connections st)
       \<Longrightarrow> reachable (snd (connect env now c token stoken st))"
| reach_disconnect: "reachable st \<Longrightarrow> reachable (snd (disconnect c st))"
| reach_subscribe: "reachable st \<Longrightarrow> reachable (snd (subscribe_session c s st))"
| reach_unsubscribe: "reachable st \<Longrightarrow> reachable (snd (unsubscribe_session c s st))"
| reach_broadcast: "reachable st \<Longrightarrow> reachable (broadcast_to_session env s m excl st)"
| reach_message: "reachable st \<Longrightarrow> reachable (snd (handle_message env now c msg st))"
| reach_sweep: "reachable st \<Longrightarrow> reachable (heartbeat_sweep now st)"

subsection \<open>The manager\<close>

definition mgr_inv :: "manager \<Rightarrow> bool" where
  \<comment> \<open>a subscriber has metadata, and is subscribed to the session of its metadata only\<close>
  "mgr_inv st =
     ((\<forall>s. \<forall>c \<in> set (members (session_subscriptions st) s).
          \<exists>md. connection_metadata st c = Some md \<and> meta_session_id md = s \<and> truthy s) \<and>
      all_distinct (session_subscriptions st))"

text \<open>
  The route \<^verbatim>\<open>/ws/{session_id}\<close> calls \<^verbatim>\<open>connect\<close> with a fresh identifier and with the
  session identifier of the path, which is not empty.
\<close>

inductive mgr_reachable :: "manager \<Rightarrow> bool" where
  mreach_init: "mgr_reachable init_manager"
| mreach_connect:
    "mgr_reachable st \<Longrightarrow> c \<notin> dom (connection_metadata st) \<Longrightarrow> truthy s
       \<Longrightarrow> mgr_reachable (snd (mgr_connect env now c s uid st))"
| mreach_disconnect: "mgr_reachable st \<Longrightarrow> mgr_reachable (snd (mgr_disconnect c st))"
| mreach_send: "mgr_reachable st \<Longrightarrow> mgr_reachable (snd (send_personal_message env c m st))"
| mreach_broadcast:
    "mgr_reachable st \<Longrightarrow> mgr_reachable (mgr_broadcast_to_session env s m excl st)"
| mreach_message: "mgr_reachable st \<Longrightarrow> mgr_reachable (mgr_handle_message env now c msg st)"
| mreach_tick: "mgr_reachable st \<Longrightarrow> mgr_reachable (snd (mgr_heartbeat_tick env now c st))"

section \<open>Sample environments and states\<close>

definition env_up :: env where
  \<comment> \<open>every transport call returns and every collaborator returns an object\<close>
  "env_up =
     \<lparr>ws_accept = (\<lambda>c. True),
      ws_send_text = (\<lambda>c fs m. True),
      get_current_user = (\<lambda>t. Inr (Some t)),
      parse_chat_request =
        (\<lambda>d. Inr \<lparr>req_session_id = Some d, req_role_id = ''role'', req_message = ''hi'',
                   req_mode = STREAM\<rparr>),
      chat_send_message =
        (\<lambda>req u t. Inr \<lparr>resp_session_id = str_optional (req_session_id req),
                         resp_message_id = ''m2'', resp_user_message_id = ''m1'',
                         resp_content = ''hello'', resp_role_id = req_role_id req,
                         resp_role_name = ''role'', resp_tokens_used = 5\<rparr>),
      chat_stream_message = (\<lambda>req u t. ([], None)),
      parse_session_create = (\<lambda>d. Inr d),
      chat_create_session =
        (\<lambda>d u. Inr \<lparr>new_session_id = d, new_title = ''chat'', new_role_id = ''role'',
                       new_role_name = ''role'', new_role_avatar = None,
                       new_message_count = 0, new_total_tokens = 0, new_is_active = True\<rparr>),
      parse_session_update = (\<lambda>d. Inr (d, ''title'')),
      chat_update_session =
        (\<lambda>s d u t. Inr (Some \<lparr>upd_id = s, upd_title = d, upd_role_id = ''role'',
                               upd_user_id = u, upd_is_active = True,
                               upd_message_count = 0, upd_total_tokens = 0,
                               upd_role_name = None, upd_role_avatar = None\<rparr>)),
      parse_session_delete = (\<lambda>d. Inr d),
      chat_delete_session = (\<lambda>s u t. Inr True)\<rparr>"

definition env_down :: env where
  \<comment> \<open>every transport call raises and every collaborator raises\<close>
  "env_down =
     \<lparr>ws_accept = (\<lambda>c. False),
      ws_send_text = (\<lambda>c fs m. False),
      get_current_user = (\<lambda>t. Inl ''auth down''),
      parse_chat_request =
        (\<lambda>d. Inr \<lparr>req_session_id = Some d, req_role_id = ''role'', req_message = ''hi'',
                   req_mode = STREAM\<rparr>),
      chat_send_message = (\<lambda>req u t. Inl ''collaborator down''),
      chat_stream_message = (\<lambda>req u t. ([], Some ''collaborator down'')),
      parse_session_create = (\<lambda>d. Inr d),
      chat_create_session = (\<lambda>d u. Inl ''collaborator down''),
      parse_session_update = (\<lambda>d. Inr (d, ''title'')),
      chat_update_session = (\<lambda>s d u t. Inl ''collaborator down''),
      parse_session_delete = (\<lambda>d. Inr d),
      chat_delete_session = (\<lambda>s u t. Inl ''collaborator down'')\<rparr>"

definition closed_conn :: "conn_id \<Rightarrow> ws_connection" where
  \<comment> \<open>a guest connection whose flag has been cleared\<close>
  "closed_conn c =
     \<lparr>websocket = \<lparr>frames = [], close_calls = []\<rparr>, connection_id = c, conn_type = GUEST,
      user_id = None, session_token = None, connected_at = 0, last_ping = 0,
      is_active = False, subscribed_sessions = []\<rparr>"

definition st_one :: service where
  \<comment> \<open>user \<open>u1\<close> on connection \<open>c1\<close>, subscribed to \<open>s1\<close>\<close>
  "st_one =
     snd (subscribe_session ''c1'' ''s1''
            (snd (connect env_up 0 ''c1'' (Some ''u1'') None init_service)))"

definition st_two :: service where
  \<comment> \<open>\<open>st_one\<close> with a guest on connection \<open>c2\<close>, subscribed to \<open>s1\<close> as well\<close>
  "st_two =
     snd (subscribe_session ''c2'' ''s1''
            (snd (connect env_up 0 ''c2'' None (Some ''guest-token'') st_one)))"

definition mst_one :: manager where
  \<comment> \<open>a guest on connection \<open>c1\<close> of session \<open>s1\<close>\<close>
  "mst_one = snd (mgr_connect env_up 0 ''c1'' ''s1'' None init_manager)"

definition env_chat_down :: env where
  \<comment> \<open>\<open>env_up\<close>, except that the Chat Collaborator raises\<close>
  "env_chat_down =
     env_up\<lparr>chat_send_message := (\<lambda>req u t. Inl ''collaborator down''),
            chat_stream_message := (\<lambda>req u t. ([], Some ''collaborator down''))\<rparr>"

definition sample_request :: "string \<Rightarrow> chat_request" where
  \<comment> \<open>what \<open>env_up\<close> reads from the data \<open>d\<close>: a request in stream mode for session \<open>d\<close>\<close>
  "sample_request d =
     \<lparr>req_session_id = Some d, req_role_id = ''role'', req_message = ''hi'', req_mode = STREAM\<rparr>"

definition sample_response :: "string \<Rightarrow> chat_response" where
  \<comment> \<open>what the Chat Collaborator of \<open>env_up\<close> answers for session \<open>d\<close>\<close>
  "sample_response d =
     \<lparr>resp_session_id = d, resp_message_id = ''m2'', resp_user_message_id = ''m1'',
      resp_content = ''hello'', resp_role_id = ''role'', resp_role_name = ''role'',
      resp_tokens_used = 5\<rparr>"

section \<open>Properties\<close>

subsection \<open>Messages from unknown or inactive connections\<close>

text \<open>
  C10. An inbound message whose connection identifier is not registered, or whose
  connection is registered but marked inactive, is dropped: \<^verbatim>\<open>handle_message\<close> returns
  without raising, no handler runs, nothing is written to any socket, and the state of
  the service is the one it had.
\<close>

theorem C10_unknown_or_inactive_ignored:
  "registry_get st c = None \<or> (\<exists>conn. registry_get st c = Some conn \<and> \<not> is_active conn)
     \<Longrightarrow> handle_message env now c msg st = (Returned (), st)"
  by (auto simp: handle_message_def)

theorem C10_witness:
  "registry_get init_service ''c1'' = None \<and>
   handle_message env_up 0 ''c1'' (Dict_msg (Some ''ping'') '''') init_service
     = (Returned (), init_service) \<and>
   (\<exists>conn. registry_get (init_service\<lparr>objects := [''c1'' \<mapsto> closed_conn ''c1''],
                                       connections := [''c1'']\<rparr>) ''c1'' = Some conn
            \<and> \<not> is_active conn) \<and>
   handle_message env_up 0 ''c1'' (Dict_msg (Some ''chat_message'') ''s1'')
       (init_service\<lparr>objects := [''c1'' \<mapsto> closed_conn ''c1''], connections := [''c1'']\<rparr>)
     = (Returned (), init_service\<lparr>objects := [''c1'' \<mapsto> closed_conn ''c1''],
                                  connections := [''c1'']\<rparr>)"
proof -
  have a: "registry_get init_service ''c1'' = None"
    by (simp add: registry_get_def init_service_def)
  let ?st = "init_service\<lparr>objects := [''c1'' \<mapsto> closed_conn ''c1''], connections := [''c1'']\<rparr>"
  have b: "\<exists>conn. registry_get ?st ''c1'' = Some conn \<and> \<not> is_active conn"
    by (simp add: registry_get_def closed_conn_def)
  show ?thesis
    using a b
      C10_unknown_or_inactive_ignored [of init_service "''c1''" env_up 0 "Dict_msg (Some ''ping'') ''''"]
      C10_unknown_or_inactive_ignored [of ?st "''c1''" env_up 0 "Dict_msg (Some ''chat_message'') ''s1''"]
    by simp
qed

subsection \<open>Unregistering twice\<close>

lemma registry_get_after_disconnect: "registry_get (snd (disconnect c st)) c = None"
  by (auto simp: disconnect_def registry_get_def Let_def split: option.splits)

text \<open>
  C4. \<^verbatim>\<open>disconnect\<close> is idempotent in both registries, from every state: a second call
  with the same identifier returns without raising and leaves the state that the first
  call produced.
\<close>

theorem C4_unregister_idempotent:
  "disconnect c (snd (disconnect c st)) = (Returned (), snd (disconnect c st)) \<and>
   mgr_disconnect c (snd (mgr_disconnect c mst)) = (Returned (), snd (mgr_disconnect c mst))"
proof
  show "disconnect c (snd (disconnect c st)) = (Returned (), snd (disconnect c st))"
    using registry_get_after_disconnect [of c st] by (simp add: disconnect_def)
next
  show "mgr_disconnect c (snd (mgr_disconnect c mst)) = (Returned (), snd (mgr_disconnect c mst))"
    by (simp add: mgr_disconnect_def Let_def)
qed

subsection \<open>Indices: adding and discarding\<close>

lemma removeAll_Nil_iff: "removeAll c xs = [] \<longleftrightarrow> set xs \<subseteq> {c}"
  by (induction xs) auto

lemma members_index_add:
  "set (members (index_add d k c) k') =
     (if k' = k then insert c (set (members d k)) else set (members d k'))"
  by (auto simp: members_def index_add_def split: option.splits)

lemma members_index_discard:
  "set (members (index_discard d k c) k') =
     (if k' = k then set (members d k) - {c} else set (members d k'))"
  by (auto simp: members_def index_discard_def removeAll_Nil_iff split: option.splits)

lemma members_fold_discard:
  "set (members (fold (\<lambda>s d. index_discard d s c) ss d) k) =
     (if k \<in> set ss then set (members d k) - {c} else set (members d k))"
  by (induction ss arbitrary: d) (auto simp: members_index_discard)

lemma members_del: "set (members (d(k := None)) k') = (if k' = k then {} else set (members d k'))"
  by (simp add: members_def)

lemma no_empty_index_add: "no_empty d \<Longrightarrow> no_empty (index_add d k c)"
  by (auto simp: no_empty_def index_add_def List.insert_def split: option.splits if_splits)

lemma no_empty_index_discard: "no_empty d \<Longrightarrow> no_empty (index_discard d k c)"
  by (auto simp: no_empty_def index_discard_def split: option.splits if_splits)

lemma no_empty_fold_discard:
  "no_empty d \<Longrightarrow> no_empty (fold (\<lambda>s d. index_discard d s c) ss d)"
  by (induction ss arbitrary: d) (auto simp: no_empty_index_discard)

lemma no_empty_del: "no_empty d \<Longrightarrow> no_empty (d(k := None))"
  by (auto simp: no_empty_def)

lemma all_distinct_index_add: "all_distinct d \<Longrightarrow> all_distinct (index_add d k c)"
  by (auto simp: all_distinct_def index_add_def split: option.splits)

lemma all_distinct_index_discard: "all_distinct d \<Longrightarrow> all_distinct (index_discard d k c)"
  by (auto simp: all_distinct_def index_discard_def distinct_removeAll split: option.splits if_splits)

lemma all_distinct_fold_discard:
  "all_distinct d \<Longrightarrow> all_distinct (fold (\<lambda>s d. index_discard d s c) ss d)"
  by (induction ss arbitrary: d) (auto simp: all_distinct_index_discard)

lemma all_distinct_del: "all_distinct d \<Longrightarrow> all_distinct (d(k := None))"
  by (auto simp: all_distinct_def)

lemma distinct_members: "all_distinct d \<Longrightarrow> distinct (members d k)"
  by (auto simp: all_distinct_def members_def split: option.splits)

lemma index_discard_absent:
  "c \<notin> set (members d k) \<Longrightarrow> no_empty d \<Longrightarrow> index_discard d k c = d"
  by (auto simp: members_def index_discard_def no_empty_def split: option.splits)

lemma index_discard_last:
  "d k = Some cs \<Longrightarrow> set cs \<subseteq> {c} \<Longrightarrow> index_discard d k c k = None"
  by (auto simp: index_discard_def removeAll_Nil_iff)

subsection \<open>Sends change no registry structure\<close>

lemma obj_step_refl: "obj_step a a"
  by (simp add: obj_step_def)

lemma obj_step_trans: "obj_step a b \<Longrightarrow> obj_step b c \<Longrightarrow> obj_step a c"
  by (simp add: obj_step_def)

lemma sends_only_refl: "sends_only st st"
  by (simp add: sends_only_def option.rel_refl obj_step_refl)

lemma rel_option_obj_step_trans:
  "rel_option obj_step x y \<Longrightarrow> rel_option obj_step y z \<Longrightarrow> rel_option obj_step x z"
  by (cases x; cases y; cases z) (auto intro: obj_step_trans)

lemma sends_only_trans: "sends_only a b \<Longrightarrow> sends_only b c \<Longrightarrow> sends_only a c"
  unfolding sends_only_def by (auto intro: rel_option_obj_step_trans)

lemma send_message_obj_step: "obj_step conn (snd (send_message env m conn))"
  by (auto simp: send_message_def obj_step_def ws_write_def Let_def split: prod.splits bool.splits)

lemma send_message_returns: "\<exists>b. fst (send_message env m conn) = Returned b"
  by (auto simp: send_message_def ws_write_def Let_def split: prod.splits bool.splits)

lemma conn_send_sends_only: "sends_only st (snd (conn_send env c m st))"
proof (cases "objects st c")
  case None
  then show ?thesis by (simp add: conn_send_def sends_only_refl)
next
  case (Some conn)
  have "obj_step conn (snd (send_message env m conn))" by (rule send_message_obj_step)
  with Some show ?thesis
    by (auto simp: conn_send_def sends_only_def option.rel_refl obj_step_refl split: prod.splits)
qed

lemma broadcast_one_sends_only: "sends_only st (broadcast_one env m excl c st)"
  by (auto simp: broadcast_one_def sends_only_refl conn_send_sends_only split: option.splits)

lemma fold_broadcast_sends_only: "sends_only st (fold (broadcast_one env m excl) cs st)"
proof (induction cs arbitrary: st)
  case Nil
  show ?case by (simp add: sends_only_refl)
next
  case (Cons c cs)
  have "sends_only st (broadcast_one env m excl c st)" by (rule broadcast_one_sends_only)
  moreover have "sends_only (broadcast_one env m excl c st)
                   (fold (broadcast_one env m excl) cs (broadcast_one env m excl c st))"
    by (rule Cons.IH)
  ultimately show ?case by (auto intro: sends_only_trans)
qed

lemma broadcast_to_session_sends_only: "sends_only st (broadcast_to_session env s m excl st)"
  by (simp add: broadcast_to_session_def fold_broadcast_sends_only)

lemma broadcast_stream_sends_only: "sends_only st (broadcast_stream env s chunks st)"
  unfolding broadcast_stream_def
proof (induction chunks arbitrary: st)
  case Nil
  show ?case by (simp add: sends_only_refl)
next
  case (Cons ch chunks)
  show ?case
    using sends_only_trans [OF broadcast_to_session_sends_only Cons.IH] by simp
qed

lemma send_error_sends_only: "sends_only st (send_error env c e st)"
  by (auto simp: send_error_def sends_only_refl conn_send_sends_only split: option.splits)

lemma handle_ping_sends_only: "sends_only st (handle_ping env now conn st)"
proof -
  let ?c = "connection_id conn"
  let ?st1 = "st\<lparr>objects := (objects st)(?c := map_option (\<lambda>x. x\<lparr>last_ping := now\<rparr>) (objects st ?c))\<rparr>"
  have "sends_only st ?st1"
    by (cases "objects st ?c") (auto simp: sends_only_def option.rel_refl obj_step_refl obj_step_def)
  from sends_only_trans [OF this conn_send_sends_only]
  show ?thesis by (simp add: handle_ping_def Let_def)
qed

lemma registry_get_sends_only:
  "sends_only st st' \<Longrightarrow> rel_option obj_step (registry_get st c) (registry_get st' c)"
  by (auto simp: sends_only_def registry_get_def)

lemma registry_get_sends_only_Some:
  "sends_only st st' \<Longrightarrow> registry_get st c = Some conn
     \<Longrightarrow> \<exists>conn'. registry_get st' c = Some conn' \<and> obj_step conn conn'"
  using registry_get_sends_only [of st st' c] by (simp add: option_rel_Some1)

lemma idx_sound_sends_only: "idx_sound st \<Longrightarrow> sends_only st st' \<Longrightarrow> idx_sound st'"
proof -
  assume inv: "idx_sound st" and so: "sends_only st st'"
  have get: "\<And>c conn. registry_get st c = Some conn \<Longrightarrow>
      \<exists>conn'. registry_get st' c = Some conn' \<and> obj_step conn conn'"
    using registry_get_sends_only_Some [OF so] by blast
  from so have eq: "session_connections st' = session_connections st"
    "user_connections st' = user_connections st" by (simp_all add: sends_only_def)
  show ?thesis
    unfolding idx_sound_def eq
  proof (intro conjI allI ballI)
    fix s c assume "c \<in> set (members (session_connections st) s)"
    with inv obtain conn where "registry_get st c = Some conn" "s \<in> set (subscribed_sessions conn)"
      unfolding idx_sound_def by blast
    with get show "\<exists>conn. registry_get st' c = Some conn \<and> s \<in> set (subscribed_sessions conn)"
      by (fastforce simp: obj_step_def)
  next
    fix u c assume "c \<in> set (members (user_connections st) u)"
    with inv obtain conn where "registry_get st c = Some conn" "user_id conn = Some u"
      unfolding idx_sound_def by blast
    with get show "\<exists>conn. registry_get st' c = Some conn \<and> user_id conn = Some u"
      by (fastforce simp: obj_step_def)
  qed
qed

lemma store_ok_sends_only: "store_ok st \<Longrightarrow> sends_only st st' \<Longrightarrow> store_ok st'"
proof -
  assume inv: "store_ok st" and so: "sends_only st st'"
  have rel: "\<And>c. rel_option obj_step (objects st c) (objects st' c)"
    using so by (simp add: sends_only_def)
  from so have eq: "connections st' = connections st" by (simp add: sends_only_def)
  show ?thesis
    unfolding store_ok_def eq
  proof (intro conjI allI ballI impI)
    fix c assume "c \<in> set (connections st)"
    with inv have "objects st c \<noteq> None" by (simp add: store_ok_def)
    with rel [of c] show "objects st' c \<noteq> None" by (cases "objects st c"; cases "objects st' c") auto
  next
    fix c conn' assume c': "objects st' c = Some conn'"
    with rel [of c] obtain conn where c0: "objects st c = Some conn" "obj_step conn conn'"
      by (cases "objects st c") auto
    with inv have "connection_id conn = c" "c \<notin> set (connections st) \<longrightarrow> \<not> is_active conn"
      by (auto simp: store_ok_def)
    with c0 show "connection_id conn' = c" by (simp add: obj_step_def)
  next
    fix c conn' assume c': "objects st' c = Some conn'" and nr: "c \<notin> set (connections st)"
    with rel [of c] obtain conn where c0: "objects st c = Some conn" "obj_step conn conn'"
      by (cases "objects st c") auto
    with inv nr have "\<not> is_active conn" by (auto simp: store_ok_def)
    with c0 show "\<not> is_active conn'" by (simp add: obj_step_def)
  qed
qed

lemma svc_inv_sends_only: "svc_inv st \<Longrightarrow> sends_only st st' \<Longrightarrow> svc_inv st'"
  unfolding svc_inv_def
  using idx_sound_sends_only store_ok_sends_only by (auto simp: sends_only_def)

subsection \<open>No key with an empty set\<close>

lemma tidy_sends_only: "tidy st \<Longrightarrow> sends_only st st' \<Longrightarrow> tidy st'"
  by (simp add: tidy_def sends_only_def)

lemma tidy_conn_send: "tidy st \<Longrightarrow> tidy (snd (conn_send env c m st))"
  using tidy_sends_only conn_send_sends_only by blast

lemma tidy_broadcast: "tidy st \<Longrightarrow> tidy (broadcast_to_session env s m excl st)"
  using tidy_sends_only broadcast_to_session_sends_only by blast

lemma tidy_subscribe: "tidy st \<Longrightarrow> tidy (snd (subscribe_session c s st))"
  by (auto simp: tidy_def subscribe_session_def no_empty_index_add split: option.splits)

lemma tidy_unsubscribe: "tidy st \<Longrightarrow> tidy (snd (unsubscribe_session c s st))"
  by (auto simp: tidy_def unsubscribe_session_def no_empty_index_discard split: option.splits)

lemma tidy_connect: "tidy st \<Longrightarrow> tidy (snd (connect env now c token stoken st))"
  by (auto simp: tidy_def connect_def Let_def no_empty_index_add split: option.splits)

lemma tidy_disconnect: "tidy st \<Longrightarrow> tidy (snd (disconnect c st))"
  by (auto simp: tidy_def disconnect_def Let_def no_empty_index_discard no_empty_fold_discard
           split: option.splits)

lemma tidy_handle_chat_message: "tidy st \<Longrightarrow> tidy (handle_chat_message env conn d st)"
  unfolding handle_chat_message_def Let_def
  by (auto split: sum.splits prod.splits option.splits
           intro!: tidy_conn_send tidy_broadcast tidy_subscribe
                   tidy_sends_only [OF _ broadcast_stream_sends_only])

lemma tidy_handle_session_create: "tidy st \<Longrightarrow> tidy (handle_session_create env conn d st)"
  unfolding handle_session_create_def Let_def
  by (auto split: sum.splits intro!: tidy_conn_send tidy_subscribe)

lemma tidy_handle_session_update: "tidy st \<Longrightarrow> tidy (handle_session_update env conn d st)"
  unfolding handle_session_update_def Let_def
  by (auto split: sum.splits prod.splits option.splits intro!: tidy_conn_send tidy_broadcast)

lemma tidy_del_session: "tidy st \<Longrightarrow> tidy (st\<lparr>session_connections := (session_connections st)(s := None)\<rparr>)"
  by (simp add: tidy_def no_empty_del)

lemma tidy_handle_session_delete: "tidy st \<Longrightarrow> tidy (handle_session_delete env conn d st)"
  unfolding handle_session_delete_def Let_def
  by (auto split: sum.splits bool.splits intro!: tidy_conn_send tidy_del_session tidy_broadcast)

lemma tidy_handle_ping: "tidy st \<Longrightarrow> tidy (handle_ping env now conn st)"
  using tidy_sends_only handle_ping_sends_only by blast

lemma tidy_send_error: "tidy st \<Longrightarrow> tidy (send_error env c e st)"
  using tidy_sends_only send_error_sends_only by blast

lemma tidy_handle_message: "tidy st \<Longrightarrow> tidy (snd (handle_message env now c msg st))"
  unfolding handle_message_def
  by (auto split: option.splits inbound.splits
           intro!: tidy_handle_ping tidy_handle_chat_message tidy_handle_session_create
                   tidy_handle_session_update tidy_handle_session_delete tidy_conn_send
                   tidy_send_error)

lemma tidy_fold_disconnect: "tidy st \<Longrightarrow> tidy (fold (\<lambda>c s. snd (disconnect c s)) cs st)"
  by (induction cs arbitrary: st) (auto intro: tidy_disconnect)

lemma tidy_heartbeat_sweep: "tidy st \<Longrightarrow> tidy (heartbeat_sweep now st)"
  by (simp add: heartbeat_sweep_def tidy_fold_disconnect)

lemma tidy_init: "tidy init_service"
  by (simp add: tidy_def init_service_def no_empty_def)

lemma reachable_tidy: "reachable st \<Longrightarrow> tidy st"
  by (induction rule: reachable.induct)
     (auto intro: tidy_init tidy_connect tidy_disconnect tidy_subscribe tidy_unsubscribe
                  tidy_broadcast tidy_handle_message tidy_heartbeat_sweep)

lemma unsubscribe_last:
  "registry_get st c \<noteq> None \<Longrightarrow> session_connections st s = Some cs \<Longrightarrow> set cs \<subseteq> {c}
     \<Longrightarrow> session_connections (snd (unsubscribe_session c s st)) s = None"
  by (auto simp: unsubscribe_session_def index_discard_last split: option.splits)

lemma index_discard_keeps_None: "d s = None \<Longrightarrow> index_discard d a c s = None"
  by (auto simp: index_discard_def split: option.splits)

lemma fold_discard_keeps_None:
  "d s = None \<Longrightarrow> fold (\<lambda>s d. index_discard d s c) ss d s = None"
  by (induction ss arbitrary: d) (simp_all add: index_discard_keeps_None)

lemma fold_discard_lookup:
  "s \<in> set ss \<Longrightarrow> d s = Some cs \<Longrightarrow> set cs \<subseteq> {c}
     \<Longrightarrow> fold (\<lambda>s d. index_discard d s c) ss d s = None"
proof (induction ss arbitrary: d)
  case Nil
  then show ?case by simp
next
  case (Cons a ss)
  show ?case
  proof (cases "a = s")
    case True
    have "index_discard d s c s = None" using Cons.prems by (simp add: index_discard_last)
    moreover have "\<And>d'. d' s = None \<Longrightarrow> fold (\<lambda>s d. index_discard d s c) ss d' s = None"
      by (rule fold_discard_keeps_None)
    ultimately show ?thesis using True by simp
  next
    case False
    then have "s \<in> set ss" using Cons.prems by simp
    moreover have "index_discard d a c s = Some cs" using False Cons.prems
      by (auto simp: index_discard_def split: option.splits)
    ultimately show ?thesis using Cons.IH Cons.prems by simp
  qed
qed

lemma disconnect_last_session:
  "registry_get st c = Some conn \<Longrightarrow> s \<in> set (subscribed_sessions conn)
     \<Longrightarrow> session_connections st s = Some cs \<Longrightarrow> set cs \<subseteq> {c}
     \<Longrightarrow> session_connections (snd (disconnect c st)) s = None"
  by (simp add: disconnect_def Let_def fold_discard_lookup)

lemma disconnect_last_user:
  "registry_get st c = Some conn \<Longrightarrow> user_id conn = Some u
     \<Longrightarrow> user_connections st u = Some cs \<Longrightarrow> set cs \<subseteq> {c}
     \<Longrightarrow> user_connections (snd (disconnect c st)) u = None"
  by (simp add: disconnect_def Let_def index_discard_last)

lemma mgr_no_empty_disconnect:
  "no_empty (session_subscriptions st) \<Longrightarrow> no_empty (session_subscriptions (snd (mgr_disconnect c st)))"
  by (auto simp: mgr_disconnect_def Let_def no_empty_index_discard split: option.splits)

lemma mgr_no_empty_send:
  "no_empty (session_subscriptions st)
     \<Longrightarrow> no_empty (session_subscriptions (snd (send_personal_message env c m st)))"
  by (auto simp: send_personal_message_def mgr_disconnect_def Let_def no_empty_index_discard
           split: option.splits prod.splits bool.splits)

lemma mgr_no_empty_connect:
  "no_empty (session_subscriptions st)
     \<Longrightarrow> no_empty (session_subscriptions (snd (mgr_connect env now c s uid st)))"
  by (auto simp: mgr_connect_def Let_def no_empty_index_add intro!: mgr_no_empty_send)

text \<open>The definitions that evaluate an operation on a concrete state.\<close>

lemmas run_defs =
  st_one_def st_two_def init_service_def init_manager_def env_up_def env_down_def closed_conn_def
  connect_def disconnect_def subscribe_session_def unsubscribe_session_def
  broadcast_to_session_def broadcast_one_def broadcast_stream_def excluded_def
  conn_send_def send_message_def close_conn_def ws_write_def send_error_def
  handle_message_def handle_ping_def handle_chat_message_def handle_session_create_def
  handle_session_update_def handle_session_delete_def stream_requested_def
  heartbeat_sweep_def timed_out_def usec_def
  registry_get_def dict_set_key_def index_add_def index_discard_def members_def
  truthy_def str_optional_def
  mgr_connect_def mgr_disconnect_def send_personal_message_def mgr_broadcast_to_session_def
  mgr_broadcast_one_def mgr_handle_message_def mgr_heartbeat_tick_def
  mgr_heartbeat_interval_def mgr_heartbeat_timeout_def
  Let_def

text \<open>
  C7. Neither the session index nor the user index keeps a key with an empty set: this
  holds in every reachable state and is kept by \<^verbatim>\<open>connect\<close>, \<^verbatim>\<open>disconnect\<close>,
  \<^verbatim>\<open>subscribe_session\<close>, \<^verbatim>\<open>unsubscribe_session\<close>, the session-delete handler, every
  inbound message and the heartbeat sweep; when the last member of a key leaves, by
  \<^verbatim>\<open>unsubscribe_session\<close> or by \<^verbatim>\<open>disconnect\<close>, the key is deleted. The session
  index of the manager has the same property.
\<close>

theorem C7_no_empty_index_entries:
  "(reachable st \<longrightarrow> tidy st) \<and>
   (tidy st \<longrightarrow>
      tidy (snd (connect env now c token stoken st)) \<and>
      tidy (snd (disconnect c st)) \<and>
      tidy (snd (subscribe_session c s st)) \<and>
      tidy (snd (unsubscribe_session c s st)) \<and>
      tidy (handle_session_delete env conn d st) \<and>
      tidy (snd (handle_message env now c msg st)) \<and>
      tidy (heartbeat_sweep now st)) \<and>
   (registry_get st c = Some conn \<and> session_connections st s = Some cs \<and> set cs \<subseteq> {c} \<longrightarrow>
      session_connections (snd (unsubscribe_session c s st)) s = None \<and>
      (s \<in> set (subscribed_sessions conn) \<longrightarrow>
         session_connections (snd (disconnect c st)) s = None)) \<and>
   (registry_get st c = Some conn \<and> user_id conn = Some u \<and>
    user_connections st u = Some cs \<and> set cs \<subseteq> {c} \<longrightarrow>
      user_connections (snd (disconnect c st)) u = None) \<and>
   (no_empty (session_subscriptions mst) \<longrightarrow>
      no_empty (session_subscriptions (snd (mgr_connect env now c s uid mst))) \<and>
      no_empty (session_subscriptions (snd (mgr_disconnect c mst))) \<and>
      no_empty (session_subscriptions (snd (send_personal_message env c m mst))))"
proof (intro conjI impI)
  assume "reachable st" then show "tidy st" by (rule reachable_tidy)
next
  assume t: "tidy st"
  show "tidy (snd (connect env now c token stoken st))" using t by (rule tidy_connect)
  show "tidy (snd (disconnect c st))" using t by (rule tidy_disconnect)
  show "tidy (snd (subscribe_session c s st))" using t by (rule tidy_subscribe)
  show "tidy (snd (unsubscribe_session c s st))" using t by (rule tidy_unsubscribe)
  show "tidy (handle_session_delete env conn d st)" using t by (rule tidy_handle_session_delete)
  show "tidy (snd (handle_message env now c msg st))" using t by (rule tidy_handle_message)
  show "tidy (heartbeat_sweep now st)" using t by (rule tidy_heartbeat_sweep)
next
  assume a: "registry_get st c = Some conn \<and> session_connections st s = Some cs \<and> set cs \<subseteq> {c}"
  then show "session_connections (snd (unsubscribe_session c s st)) s = None"
    by (simp add: unsubscribe_last)
  assume "s \<in> set (subscribed_sessions conn)"
  with a show "session_connections (snd (disconnect c st)) s = None"
    by (simp add: disconnect_last_session)
next
  assume "registry_get st c = Some conn \<and> user_id conn = Some u \<and>
    user_connections st u = Some cs \<and> set cs \<subseteq> {c}"
  then show "user_connections (snd (disconnect c st)) u = None"
    by (simp add: disconnect_last_user)
next
  assume n: "no_empty (session_subscriptions mst)"
  show "no_empty (session_subscriptions (snd (mgr_connect env now c s uid mst)))"
    using n by (rule mgr_no_empty_connect)
  show "no_empty (session_subscriptions (snd (mgr_disconnect c mst)))"
    using n by (rule mgr_no_empty_disconnect)
  show "no_empty (session_subscriptions (snd (send_personal_message env c m mst)))"
    using n by (rule mgr_no_empty_send)
qed

lemma st_one_eq:
  "st_one =
     \<lparr>objects = [''c1'' \<mapsto>
        \<lparr>websocket = \<lparr>frames = [(Msg_connect ''c1'' ''authenticated'', True)], close_calls = []\<rparr>,
         connection_id = ''c1'', conn_type = AUTHENTICATED, user_id = Some ''u1'',
         session_token = None, connected_at = 0, last_ping = 0, is_active = True,
         subscribed_sessions = [''s1'']\<rparr>],
      connections = [''c1''],
      user_connections = [''u1'' \<mapsto> [''c1'']],
      session_connections = [''s1'' \<mapsto> [''c1'']],
      heartbeat_interval = 30, heartbeat_timeout = 60\<rparr>"
  by (simp add: run_defs)

lemma reachable_st_one: "reachable st_one"
  unfolding st_one_def
  by (intro reach_subscribe reach_connect reach_init) (simp add: init_service_def)

theorem C7_witness:
  "reachable st_one \<and> tidy st_one \<and>
   tidy (snd (disconnect ''c1'' st_one)) \<and>
   session_connections st_one ''s1'' = Some [''c1''] \<and>
   session_connections (snd (unsubscribe_session ''c1'' ''s1'' st_one)) ''s1'' = None \<and>
   session_connections (snd (disconnect ''c1'' st_one)) ''s1'' = None \<and>
   user_connections st_one ''u1'' = Some [''c1''] \<and>
   user_connections (snd (disconnect ''c1'' st_one)) ''u1'' = None \<and>
   no_empty (session_subscriptions init_manager) \<and>
   no_empty (session_subscriptions (snd (mgr_connect env_up 0 ''c1'' ''s1'' None init_manager)))"
proof -
  have r: "reachable st_one" by (rule reachable_st_one)
  have g: "registry_get st_one ''c1'' = Some (the (objects st_one ''c1''))"
    by (simp add: st_one_eq registry_get_def)
  have s: "session_connections st_one ''s1'' = Some [''c1'']"
    and u: "user_connections st_one ''u1'' = Some [''c1'']"
    and i: "user_id (the (objects st_one ''c1'')) = Some ''u1''"
    and m: "''s1'' \<in> set (subscribed_sessions (the (objects st_one ''c1'')))"
    by (simp_all add: st_one_eq)
  have n: "no_empty (session_subscriptions init_manager)"
    by (simp add: init_manager_def no_empty_def)
  show ?thesis
    using r g s u i m n
      C7_no_empty_index_entries [of st_one env_up 0 "''c1''" None None "''s1''"
        "the (objects st_one ''c1'')" "''s1''" "Dict_msg (Some ''ping'') []" "[''c1'']" "''u1''"
        init_manager None Msg_pong]
    by simp
qed

subsection \<open>The manager's invariant\<close>

lemma mgr_disconnect_clears:
  assumes "mgr_inv st"
  shows "c \<notin> set (members (session_subscriptions (snd (mgr_disconnect c st))) s)"
proof (cases "connection_metadata st c")
  case None
  with assms have "c \<notin> set (members (session_subscriptions st) s)"
    unfolding mgr_inv_def by fastforce
  with None show ?thesis by (simp add: mgr_disconnect_def)
next
  case (Some md)
  show ?thesis
  proof
    assume in': "c \<in> set (members (session_subscriptions (snd (mgr_disconnect c st))) s)"
    have sub: "set (members (session_subscriptions (snd (mgr_disconnect c st))) s)
                 \<subseteq> set (members (session_subscriptions st) s)"
      using Some by (auto simp: mgr_disconnect_def members_index_discard split: if_splits)
    with in' have "c \<in> set (members (session_subscriptions st) s)" by blast
    with assms Some have "meta_session_id md = s" "truthy s"
      unfolding mgr_inv_def by fastforce+
    with Some in' show False
      by (simp add: mgr_disconnect_def members_index_discard)
  qed
qed

lemma mgr_inv_disconnect: "mgr_inv st \<Longrightarrow> mgr_inv (snd (mgr_disconnect c' st))"
proof -
  assume inv: "mgr_inv st"
  let ?st' = "snd (mgr_disconnect c' st)"
  have sub: "\<And>s. set (members (session_subscriptions ?st') s)
                 \<subseteq> set (members (session_subscriptions st) s)"
    by (auto simp: mgr_disconnect_def members_index_discard split: if_splits option.splits)
  have md: "\<And>c. c \<noteq> c' \<Longrightarrow> connection_metadata ?st' c = connection_metadata st c"
    by (simp add: mgr_disconnect_def)
  have dist: "all_distinct (session_subscriptions ?st')"
    using inv by (auto simp: mgr_inv_def mgr_disconnect_def all_distinct_index_discard split: option.splits)
  show ?thesis
    unfolding mgr_inv_def
  proof (intro conjI allI ballI)
    fix s c assume c: "c \<in> set (members (session_subscriptions ?st') s)"
    have "c \<noteq> c'" using mgr_disconnect_clears [OF inv, of c' s] c by auto
    moreover from c sub have "c \<in> set (members (session_subscriptions st) s)" by blast
    ultimately show "\<exists>md. connection_metadata ?st' c = Some md \<and> meta_session_id md = s \<and> truthy s"
      using inv md by (auto simp: mgr_inv_def)
  qed (rule dist)
qed

lemma mgr_inv_socket:
  "mgr_inv st \<Longrightarrow> mgr_inv (st\<lparr>active_connections := a\<rparr>)"
  by (simp add: mgr_inv_def)

lemma mgr_inv_send: "mgr_inv st \<Longrightarrow> mgr_inv (snd (send_personal_message env c m st))"
  by (auto simp: send_personal_message_def split: option.splits prod.splits bool.splits
           intro!: mgr_inv_disconnect mgr_inv_socket)

lemma mgr_inv_connect:
  assumes inv: "mgr_inv st" and fresh: "c \<notin> dom (connection_metadata st)" and s: "truthy s"
  shows "mgr_inv (snd (mgr_connect env now c s uid st))"
proof (cases "ws_accept env c")
  case False
  with inv show ?thesis by (simp add: mgr_connect_def)
next
  case True
  let ?st1 = "st\<lparr>active_connections :=
                       (active_connections st)(c \<mapsto> \<lparr>frames = [], close_calls = []\<rparr>),
                     connection_metadata :=
                       (connection_metadata st)
                         (c \<mapsto> \<lparr>meta_session_id = s, meta_user_id = uid,
                                meta_connected_at = now, last_heartbeat = now\<rparr>),
                     session_subscriptions := index_add (session_subscriptions st) s c,
                     heartbeat_tasks := insert c (heartbeat_tasks st)\<rparr>"
  have notin: "\<And>s'. c \<notin> set (members (session_subscriptions st) s')"
    using inv fresh by (auto simp: mgr_inv_def)
  have "mgr_inv ?st1"
    unfolding mgr_inv_def
  proof (intro conjI allI ballI)
    fix s' c' assume "c' \<in> set (members (session_subscriptions ?st1) s')"
    then have c': "(s' = s \<and> c' = c) \<or> c' \<in> set (members (session_subscriptions st) s')"
      by (auto simp: members_index_add split: if_splits)
    show "\<exists>md. connection_metadata ?st1 c' = Some md \<and> meta_session_id md = s' \<and> truthy s'"
    proof (cases "c' = c")
      case True
      with c' notin have "s' = s" by auto
      with True s show ?thesis by simp
    next
      case False
      with c' have "c' \<in> set (members (session_subscriptions st) s')" by auto
      with inv False show ?thesis by (auto simp: mgr_inv_def)
    qed
  next
    show "all_distinct (session_subscriptions ?st1)"
      using inv by (simp add: mgr_inv_def all_distinct_index_add)
  qed
  then have "mgr_inv (snd (send_personal_message env c (Msg_connection_established c s) ?st1))"
    by (rule mgr_inv_send)
  with True show ?thesis by (simp add: mgr_connect_def Let_def)
qed

lemma mgr_inv_fold_broadcast:
  "mgr_inv st \<Longrightarrow> mgr_inv (fold (mgr_broadcast_one env m excl) cs st)"
  by (induction cs arbitrary: st) (auto simp: mgr_broadcast_one_def intro: mgr_inv_send)

lemma mgr_inv_broadcast: "mgr_inv st \<Longrightarrow> mgr_inv (mgr_broadcast_to_session env s m excl st)"
  by (auto simp: mgr_broadcast_to_session_def mgr_inv_fold_broadcast split: option.splits)

lemma mgr_inv_touch:
  "mgr_inv st \<Longrightarrow>
   mgr_inv (st\<lparr>connection_metadata :=
                 (connection_metadata st)
                   (c := map_option (\<lambda>md. md\<lparr>last_heartbeat := now\<rparr>) (connection_metadata st c))\<rparr>)"
  by (auto simp: mgr_inv_def) force

lemma mgr_inv_handle_message: "mgr_inv st \<Longrightarrow> mgr_inv (mgr_handle_message env now c msg st)"
  unfolding mgr_handle_message_def
  by (auto split: option.splits inbound.splits intro!: mgr_inv_send mgr_inv_touch)

lemma mgr_inv_tick: "mgr_inv st \<Longrightarrow> mgr_inv (snd (mgr_heartbeat_tick env now c st))"
  unfolding mgr_heartbeat_tick_def
  by (auto split: option.splits intro!: mgr_inv_send mgr_inv_disconnect)

lemma mgr_inv_init: "mgr_inv init_manager"
  by (simp add: mgr_inv_def init_manager_def members_def all_distinct_def)

lemma mgr_reachable_inv: "mgr_reachable st \<Longrightarrow> mgr_inv st"
  by (induction rule: mgr_reachable.induct)
     (auto intro: mgr_inv_init mgr_inv_connect mgr_inv_disconnect mgr_inv_send
                  mgr_inv_broadcast mgr_inv_handle_message mgr_inv_tick)

subsection \<open>Registering\<close>

lemma connect_refused:
  "\<not> ws_accept env c \<Longrightarrow> connect env now c token stoken st = (Returned None, st)"
  by (simp add: connect_def)

lemma mgr_connect_refused:
  "\<not> ws_accept env c \<Longrightarrow> mgr_connect env now c s uid mst = (Returned False, mst)"
  by (simp add: mgr_connect_def)

lemma send_message_keeps:
  "connection_id (snd (send_message env m conn)) = connection_id conn \<and>
   user_id (snd (send_message env m conn)) = user_id conn \<and>
   subscribed_sessions (snd (send_message env m conn)) = subscribed_sessions conn"
  using send_message_obj_step [of conn env m] by (simp add: obj_step_def)

lemma connect_accepted:
  assumes "ws_accept env c"
  shows "\<exists>conn. connect env now c token stoken st
             = (Returned (Some conn),
                snd (connect env now c token stoken st)) \<and>
           connection_id conn = c \<and>
           registry_get (snd (connect env now c token stoken st)) c = Some conn \<and>
           (\<forall>u. user_id conn = Some u \<longrightarrow>
              c \<in> set (members (user_connections (snd (connect env now c token stoken st))) u))"
  using assms
  by (auto simp: connect_def Let_def registry_get_def dict_set_key_def send_message_keeps
        members_index_add split: option.splits)

lemma mgr_connect_accepted:
  assumes "ws_accept env c"
  shows "fst (mgr_connect env now c s uid mst) = Returned True"
  using assms by (simp add: mgr_connect_def Let_def)

lemma mgr_connect_registered:
  assumes "ws_accept env c" and "ws_send_text env c [] (Msg_connection_established c s)"
  shows "c \<in> dom (active_connections (snd (mgr_connect env now c s uid mst))) \<and>
         c \<in> set (members (session_subscriptions (snd (mgr_connect env now c s uid mst))) s) \<and>
         c \<in> heartbeat_tasks (snd (mgr_connect env now c s uid mst)) \<and>
         connection_metadata (snd (mgr_connect env now c s uid mst)) c
           = Some \<lparr>meta_session_id = s, meta_user_id = uid, meta_connected_at = now,
                   last_heartbeat = now\<rparr>"
  using assms
  by (simp add: mgr_connect_def Let_def send_personal_message_def ws_write_def members_index_add)

text \<open>
  C8, as the code has it. Neither \<^verbatim>\<open>connect\<close> raises. When the transport refuses the
  handshake, \<^verbatim>\<open>WebSocketService.connect\<close> returns \<^verbatim>\<open>None\<close> and
  \<^verbatim>\<open>ConnectionManager.connect\<close> returns \<^verbatim>\<open>False\<close>, and the registry is left as it
  was. When the transport accepts, the service registers the connection under the
  identifier its caller chose (and under its user, when it has one) and returns the
  connection object; the manager returns \<^verbatim>\<open>True\<close>, and the connection is in its
  registry, in the subscriber set of its session, in the metadata and among the heartbeat
  tasks when the confirmation frame has been written.
\<close>

theorem C8_register_reports_by_value:
  "(\<not> ws_accept env c \<longrightarrow>
      connect env now c token stoken st = (Returned None, st) \<and>
      mgr_connect env now c s uid mst = (Returned False, mst)) \<and>
   (ws_accept env c \<longrightarrow>
      (\<exists>conn. fst (connect env now c token stoken st) = Returned (Some conn) \<and>
              connection_id conn = c \<and>
              registry_get (snd (connect env now c token stoken st)) c = Some conn \<and>
              (\<forall>u. user_id conn = Some u \<longrightarrow>
                 c \<in> set (members
                            (user_connections (snd (connect env now c token stoken st))) u))) \<and>
      fst (mgr_connect env now c s uid mst) = Returned True \<and>
      (ws_send_text env c [] (Msg_connection_established c s) \<longrightarrow>
         c \<in> dom (active_connections (snd (mgr_connect env now c s uid mst))) \<and>
         c \<in> set (members (session_subscriptions (snd (mgr_connect env now c s uid mst))) s) \<and>
         c \<in> heartbeat_tasks (snd (mgr_connect env now c s uid mst)) \<and>
         connection_metadata (snd (mgr_connect env now c s uid mst)) c
           = Some \<lparr>meta_session_id = s, meta_user_id = uid, meta_connected_at = now,
                   last_heartbeat = now\<rparr>))"
proof (intro conjI impI)
  assume r: "\<not> ws_accept env c"
  show "connect env now c token stoken st = (Returned None, st)" using r by (rule connect_refused)
  show "mgr_connect env now c s uid mst = (Returned False, mst)" using r by (rule mgr_connect_refused)
next
  assume a: "ws_accept env c"
  from connect_accepted [OF a, of now token stoken st]
  obtain conn where
    "connect env now c token stoken st = (Returned (Some conn), snd (connect env now c token stoken st))"
    "connection_id conn = c"
    "registry_get (snd (connect env now c token stoken st)) c = Some conn"
    "\<forall>u. user_id conn = Some u \<longrightarrow>
        c \<in> set (members (user_connections (snd (connect env now c token stoken st))) u)"
    by blast
  then show "\<exists>conn. fst (connect env now c token stoken st) = Returned (Some conn) \<and>
              connection_id conn = c \<and>
              registry_get (snd (connect env now c token stoken st)) c = Some conn \<and>
              (\<forall>u. user_id conn = Some u \<longrightarrow>
                 c \<in> set (members
                            (user_connections (snd (connect env now c token stoken st))) u))"
    by (metis fst_conv)
  show "fst (mgr_connect env now c s uid mst) = Returned True"
    using a by (rule mgr_connect_accepted)
  assume w: "ws_send_text env c [] (Msg_connection_established c s)"
  from mgr_connect_registered [OF a w, of now uid mst]
  show "c \<in> dom (active_connections (snd (mgr_connect env now c s uid mst)))"
    and "c \<in> set (members (session_subscriptions (snd (mgr_connect env now c s uid mst))) s)"
    and "c \<in> heartbeat_tasks (snd (mgr_connect env now c s uid mst))"
    and "connection_metadata (snd (mgr_connect env now c s uid mst)) c
           = Some \<lparr>meta_session_id = s, meta_user_id = uid, meta_connected_at = now,
                   last_heartbeat = now\<rparr>"
    by simp_all
qed

theorem C8_witness:
  "\<not> ws_accept env_down ''c1'' \<and>
   connect env_down 0 ''c1'' None None init_service = (Returned None, init_service) \<and>
   ws_accept env_up ''c1'' \<and>
   ws_send_text env_up ''c1'' [] (Msg_connection_established ''c1'' ''s1'') \<and>
   fst (mgr_connect env_up 0 ''c1'' ''s1'' None init_manager) = Returned True \<and>
   ''c1'' \<in> dom (active_connections (snd (mgr_connect env_up 0 ''c1'' ''s1'' None init_manager)))"
  using C8_register_reports_by_value [of env_down "''c1''" 0 None None init_service "''s1''" None init_manager]
        C8_register_reports_by_value [of env_up "''c1''" 0 None None init_service "''s1''" None init_manager]
  by (simp add: env_up_def env_down_def)

text \<open>
  With a transport that refuses the handshake, both functions return a value; no
  \<^verbatim>\<open>HandshakeError\<close> is raised (the repository declares no such exception).
\<close>

theorem C8_counterexample:
  "\<not> ws_accept env_down ''c1'' \<and>
   fst (connect env_down 0 ''c1'' None None init_service) = Returned None \<and>
   fst (connect env_down 0 ''c1'' None None init_service) \<noteq> Raised ''HandshakeError'' \<and>
   fst (mgr_connect env_down 0 ''c1'' ''s1'' None init_manager) = Returned False \<and>
   fst (mgr_connect env_down 0 ''c1'' ''s1'' None init_manager) \<noteq> Raised ''HandshakeError''"
  by (simp add: run_defs)

subsection \<open>A send that fails\<close>





lemma mst_one_eq:
  "mst_one =
     \<lparr>active_connections =
        [''c1'' \<mapsto> \<lparr>frames = [(Msg_connection_established ''c1'' ''s1'', True)],
                     close_calls = []\<rparr>],
      session_subscriptions = [''s1'' \<mapsto> [''c1'']],
      connection_metadata =
        [''c1'' \<mapsto> \<lparr>meta_session_id = ''s1'', meta_user_id = None, meta_connected_at = 0,
                     last_heartbeat = 0\<rparr>],
      heartbeat_tasks = {''c1''}\<rparr>"
  by (simp add: mst_one_def run_defs)

lemma mgr_reachable_mst_one: "mgr_reachable mst_one"
  unfolding mst_one_def
  by (intro mreach_connect mreach_init) (simp_all add: init_manager_def truthy_def)



subsection \<open>The heartbeat sweep\<close>

lemma cfg_sends_only: "implemented_config st \<Longrightarrow> sends_only st st' \<Longrightarrow> implemented_config st'"
  by (simp add: implemented_config_def sends_only_def)

lemma cfg_conn_send: "implemented_config st \<Longrightarrow> implemented_config (snd (conn_send env c m st))"
  using cfg_sends_only conn_send_sends_only by blast

lemma cfg_broadcast: "implemented_config st \<Longrightarrow> implemented_config (broadcast_to_session env s m excl st)"
  using cfg_sends_only broadcast_to_session_sends_only by blast

lemma cfg_subscribe: "implemented_config st \<Longrightarrow> implemented_config (snd (subscribe_session c s st))"
  by (auto simp: implemented_config_def subscribe_session_def split: option.splits)

lemma cfg_unsubscribe: "implemented_config st \<Longrightarrow> implemented_config (snd (unsubscribe_session c s st))"
  by (auto simp: implemented_config_def unsubscribe_session_def split: option.splits)

lemma cfg_connect: "implemented_config st \<Longrightarrow> implemented_config (snd (connect env now c token stoken st))"
  by (auto simp: implemented_config_def connect_def Let_def)

lemma cfg_disconnect: "implemented_config st \<Longrightarrow> implemented_config (snd (disconnect c st))"
  by (auto simp: implemented_config_def disconnect_def Let_def split: option.splits)

lemma cfg_handle_chat_message:
  "implemented_config st \<Longrightarrow> implemented_config (handle_chat_message env conn d st)"
  unfolding handle_chat_message_def Let_def
  by (auto split: sum.splits prod.splits option.splits
           intro!: cfg_conn_send cfg_broadcast cfg_subscribe
                   cfg_sends_only [OF _ broadcast_stream_sends_only])

lemma cfg_handle_session_create:
  "implemented_config st \<Longrightarrow> implemented_config (handle_session_create env conn d st)"
  unfolding handle_session_create_def Let_def
  by (auto split: sum.splits intro!: cfg_conn_send cfg_subscribe)

lemma cfg_handle_session_update:
  "implemented_config st \<Longrightarrow> implemented_config (handle_session_update env conn d st)"
  unfolding handle_session_update_def Let_def
  by (auto split: sum.splits prod.splits option.splits intro!: cfg_conn_send cfg_broadcast)

lemma cfg_del_session:
  "implemented_config st
     \<Longrightarrow> implemented_config (st\<lparr>session_connections := (session_connections st)(s := None)\<rparr>)"
  by (simp add: implemented_config_def)

lemma cfg_handle_session_delete:
  "implemented_config st \<Longrightarrow> implemented_config (handle_session_delete env conn d st)"
  unfolding handle_session_delete_def Let_def
  by (auto split: sum.splits bool.splits intro!: cfg_conn_send cfg_del_session cfg_broadcast)

lemma cfg_handle_message:
  "implemented_config st \<Longrightarrow> implemented_config (snd (handle_message env now c msg st))"
  unfolding handle_message_def
  by (auto split: option.splits inbound.splits
           intro!: cfg_handle_chat_message cfg_handle_session_create
                   cfg_handle_session_update cfg_handle_session_delete cfg_conn_send
                   cfg_sends_only [OF _ handle_ping_sends_only]
                   cfg_sends_only [OF _ send_error_sends_only])

lemma cfg_fold_disconnect:
  "implemented_config st \<Longrightarrow> implemented_config (fold (\<lambda>c s. snd (disconnect c s)) cs st)"
  by (induction cs arbitrary: st) (auto intro: cfg_disconnect)

lemma cfg_heartbeat_sweep: "implemented_config st \<Longrightarrow> implemented_config (heartbeat_sweep now st)"
  by (simp add: heartbeat_sweep_def cfg_fold_disconnect)

lemma reachable_config: "reachable st \<Longrightarrow> implemented_config st"
proof (induction rule: reachable.induct)
  case reach_init
  show ?case by (simp add: implemented_config_def init_service_def)
qed (auto intro: cfg_connect cfg_disconnect cfg_subscribe cfg_unsubscribe cfg_broadcast
                 cfg_handle_message cfg_heartbeat_sweep)

lemma connections_disconnect:
  "set (connections (snd (disconnect c st)))
     = (if c \<in> set (connections st) \<and> objects st c \<noteq> None
        then set (connections st) - {c} else set (connections st))"
  by (auto simp: disconnect_def registry_get_def Let_def split: option.splits)

lemma objects_dom_disconnect: "(objects (snd (disconnect c st)) c' = None) = (objects st c' = None)"
  by (auto simp: disconnect_def registry_get_def Let_def split: option.splits if_splits)

lemma last_ping_close_conn: "last_ping (close_conn code reason conn) = last_ping conn"
  by (simp add: close_conn_def)

lemma timed_out_disconnect: "timed_out (snd (disconnect c' st)) now c = timed_out st now c"
  by (auto simp: timed_out_def disconnect_def registry_get_def Let_def last_ping_close_conn
           split: option.splits if_splits)

lemma connections_fold_disconnect:
  "set (connections (fold (\<lambda>c s. snd (disconnect c s)) cs st))
     = set (connections st) - {c \<in> set cs. objects st c \<noteq> None}"
proof (induction cs arbitrary: st)
  case Nil
  show ?case by simp
next
  case (Cons a cs)
  have "set (connections (fold (\<lambda>c s. snd (disconnect c s)) (a # cs) st))
          = set (connections (snd (disconnect a st)))
              - {c \<in> set cs. objects (snd (disconnect a st)) c \<noteq> None}"
    using Cons.IH [of "snd (disconnect a st)"] by simp
  also have "\<dots> = set (connections st) - {c \<in> set (a # cs). objects st c \<noteq> None}"
    by (auto simp: connections_disconnect objects_dom_disconnect split: if_splits)
  finally show ?case .
qed

lemma timed_out_fold_disconnect:
  "timed_out (fold (\<lambda>c s. snd (disconnect c s)) cs st) now c = timed_out st now c"
  by (induction cs arbitrary: st) (simp_all add: timed_out_disconnect)

lemma timed_out_has_object: "timed_out st now c \<Longrightarrow> objects st c \<noteq> None"
  by (auto simp: timed_out_def split: option.splits)

lemma connections_heartbeat_sweep:
  "set (connections (heartbeat_sweep now st)) = {c \<in> set (connections st). \<not> timed_out st now c}"
  by (auto simp: heartbeat_sweep_def connections_fold_disconnect dest: timed_out_has_object)

lemma timed_out_heartbeat_sweep: "timed_out (heartbeat_sweep t st) now c = timed_out st now c"
  by (simp add: heartbeat_sweep_def timed_out_fold_disconnect)

lemma timed_out_fold_sweep: "timed_out (fold heartbeat_sweep ts st) now c = timed_out st now c"
  by (induction ts arbitrary: st) (simp_all add: timed_out_heartbeat_sweep)

lemma connections_fold_sweep:
  "c \<in> set (connections (fold heartbeat_sweep ts st))
     \<longleftrightarrow> c \<in> set (connections st) \<and> (\<forall>t \<in> set ts. \<not> timed_out st t c)"
proof (induction ts arbitrary: st)
  case Nil
  show ?case by simp
next
  case (Cons t ts)
  show ?case
    using Cons.IH [of "heartbeat_sweep t st"]
    by (auto simp: connections_heartbeat_sweep timed_out_heartbeat_sweep)
qed

lemma mgr_tick_timeout:
  assumes "active_connections mst c \<noteq> None" "connection_metadata mst c = Some md"
    "now - last_heartbeat md > mgr_heartbeat_timeout * usec"
  shows "mgr_heartbeat_tick env now c mst = (False, snd (mgr_disconnect c mst))"
  using assms by (auto simp: mgr_heartbeat_tick_def)

lemma mgr_tick_alive:
  assumes "active_connections mst c \<noteq> None" "connection_metadata mst c = Some md"
    "now - last_heartbeat md \<le> mgr_heartbeat_timeout * usec"
  shows "mgr_heartbeat_tick env now c mst
           = (True, snd (send_personal_message env c Msg_heartbeat_request mst))"
  using assms by (auto simp: mgr_heartbeat_tick_def)

lemma mgr_send_delivered:
  assumes "active_connections mst c = Some ws" "ws_send_text env c (frames ws) m"
  shows "send_personal_message env c m mst
           = (Returned (),
              mst\<lparr>active_connections :=
                    (active_connections mst)(c \<mapsto> ws\<lparr>frames := frames ws @ [(m, True)]\<rparr>)\<rparr>)"
  using assms by (simp add: send_personal_message_def ws_write_def)

lemma mgr_send_failed:
  assumes "active_connections mst c = Some ws" "\<not> ws_send_text env c (frames ws) m"
  shows "c \<notin> dom (active_connections (snd (send_personal_message env c m mst)))"
  using assms by (simp add: send_personal_message_def ws_write_def mgr_disconnect_def Let_def)

lemma mgr_disconnect_other:
  assumes "c' \<noteq> c"
  shows "active_connections (snd (mgr_disconnect c' mst)) c = active_connections mst c"
    and "connection_metadata (snd (mgr_disconnect c' mst)) c = connection_metadata mst c"
    and "c \<in> set (members (session_subscriptions (snd (mgr_disconnect c' mst))) s)
           \<longleftrightarrow> c \<in> set (members (session_subscriptions mst) s)"
  using assms
  by (auto simp: mgr_disconnect_def Let_def members_index_discard split: option.splits if_splits)

lemma mgr_send_other:
  assumes "c' \<noteq> c"
  shows "active_connections (snd (send_personal_message env c' m mst)) c = active_connections mst c"
    and "connection_metadata (snd (send_personal_message env c' m mst)) c = connection_metadata mst c"
    and "c \<in> set (members (session_subscriptions (snd (send_personal_message env c' m mst))) s)
           \<longleftrightarrow> c \<in> set (members (session_subscriptions mst) s)"
  using assms
  by (auto simp: send_personal_message_def mgr_disconnect_other split: option.splits prod.splits bool.splits)

lemma mgr_tick_other:
  assumes "c' \<noteq> c"
  shows "active_connections (snd (mgr_heartbeat_tick env now c' mst)) c = active_connections mst c"
    and "connection_metadata (snd (mgr_heartbeat_tick env now c' mst)) c = connection_metadata mst c"
    and "c \<in> set (members (session_subscriptions (snd (mgr_heartbeat_tick env now c' mst))) s)
           \<longleftrightarrow> c \<in> set (members (session_subscriptions mst) s)"
  using assms
  by (auto simp: mgr_heartbeat_tick_def mgr_disconnect_other mgr_send_other split: option.splits)

text \<open>
  C2, as the code has it. In every reachable state of the service the heartbeat interval
  is 30 seconds and the timeout 60 seconds, twice the interval. A registered connection
  whose \<^verbatim>\<open>last_ping\<close> is no longer updated survives the sweeps made at the times \<open>ts\<close>
  exactly when none of these times is more than the timeout past its \<^verbatim>\<open>last_ping\<close>: the
  first sweep that finds it overdue unregisters it, and no sweep unregisters it before.

  The manager has one loop for each connection, which sleeps 30 seconds and compares with
  60. A turn of the loop of \<open>c\<close> that finds \<open>c\<close> more than 60 seconds past its
  \<^verbatim>\<open>last_heartbeat\<close> unregisters it. A turn within the 60 seconds writes a
  \<^verbatim>\<open>heartbeat_request\<close> to the socket of \<open>c\<close>, and \<open>c\<close> is registered after the turn
  exactly when that write succeeds: the state is then the former one with the frame added to
  the socket, and a write that fails unregisters \<open>c\<close> although it is within its timeout.
  A turn of the loop of another connection leaves the socket, the metadata and the
  subscriptions of \<open>c\<close> as they are.
\<close>

theorem C2_heartbeat_eviction:
  "(reachable st \<longrightarrow>
      heartbeat_interval st = 30 \<and> heartbeat_timeout st = 60 \<and>
      heartbeat_timeout st \<ge> 2 * heartbeat_interval st) \<and>
   (registry_get st c = Some conn \<longrightarrow>
      (c \<in> set (connections (fold heartbeat_sweep ts st))
         \<longleftrightarrow> (\<forall>t \<in> set ts. t - last_ping conn \<le> heartbeat_timeout st * usec))) \<and>
   mgr_heartbeat_interval = 30 \<and> mgr_heartbeat_timeout = 60 \<and>
   (active_connections mst c = Some ws \<and> connection_metadata mst c = Some md \<longrightarrow>
      (now - last_heartbeat md > mgr_heartbeat_timeout * usec \<longrightarrow>
         mgr_heartbeat_tick env now c mst = (False, snd (mgr_disconnect c mst))) \<and>
      (now - last_heartbeat md \<le> mgr_heartbeat_timeout * usec \<longrightarrow>
         mgr_heartbeat_tick env now c mst
           = (True, snd (send_personal_message env c Msg_heartbeat_request mst))) \<and>
      (c \<in> dom (active_connections (snd (mgr_heartbeat_tick env now c mst)))
         \<longleftrightarrow> now - last_heartbeat md \<le> mgr_heartbeat_timeout * usec \<and>
             ws_send_text env c (frames ws) Msg_heartbeat_request) \<and>
      (now - last_heartbeat md \<le> mgr_heartbeat_timeout * usec \<and>
       ws_send_text env c (frames ws) Msg_heartbeat_request \<longrightarrow>
         snd (mgr_heartbeat_tick env now c mst)
           = mst\<lparr>active_connections :=
                   (active_connections mst)
                     (c \<mapsto> ws\<lparr>frames := frames ws @ [(Msg_heartbeat_request, True)]\<rparr>)\<rparr>) \<and>
      (\<forall>c'. c' \<noteq> c \<longrightarrow>
         active_connections (snd (mgr_heartbeat_tick env now c' mst)) c = Some ws \<and>
         connection_metadata (snd (mgr_heartbeat_tick env now c' mst)) c = Some md \<and>
         (\<forall>s. c \<in> set (members (session_subscriptions (snd (mgr_heartbeat_tick env now c' mst))) s)
                \<longleftrightarrow> c \<in> set (members (session_subscriptions mst) s))))"
proof (intro conjI impI allI)
  assume "reachable st"
  then have "implemented_config st" by (rule reachable_config)
  then show "heartbeat_interval st = 30" and "heartbeat_timeout st = 60"
    and "heartbeat_timeout st \<ge> 2 * heartbeat_interval st"
    by (simp_all add: implemented_config_def)
next
  assume g: "registry_get st c = Some conn"
  then have "c \<in> set (connections st)" and "objects st c = Some conn"
    by (auto simp: registry_get_def split: if_splits)
  then show "c \<in> set (connections (fold heartbeat_sweep ts st))
         \<longleftrightarrow> (\<forall>t \<in> set ts. t - last_ping conn \<le> heartbeat_timeout st * usec)"
    by (auto simp: connections_fold_sweep timed_out_def)
next
  show "mgr_heartbeat_interval = 30" by (simp add: mgr_heartbeat_interval_def)
  show "mgr_heartbeat_timeout = 60" by (simp add: mgr_heartbeat_timeout_def)
next
  assume a: "active_connections mst c = Some ws \<and> connection_metadata mst c = Some md"
    and t: "now - last_heartbeat md > mgr_heartbeat_timeout * usec"
  then show "mgr_heartbeat_tick env now c mst = (False, snd (mgr_disconnect c mst))"
    by (simp add: mgr_tick_timeout)
next
  assume a: "active_connections mst c = Some ws \<and> connection_metadata mst c = Some md"
    and t: "now - last_heartbeat md \<le> mgr_heartbeat_timeout * usec"
  then show "mgr_heartbeat_tick env now c mst
           = (True, snd (send_personal_message env c Msg_heartbeat_request mst))"
    by (simp add: mgr_tick_alive)
next
  assume a: "active_connections mst c = Some ws \<and> connection_metadata mst c = Some md"
  show "c \<in> dom (active_connections (snd (mgr_heartbeat_tick env now c mst)))
         \<longleftrightarrow> now - last_heartbeat md \<le> mgr_heartbeat_timeout * usec \<and>
             ws_send_text env c (frames ws) Msg_heartbeat_request"
  proof (cases "now - last_heartbeat md > mgr_heartbeat_timeout * usec")
    case True
    with a show ?thesis by (simp add: mgr_tick_timeout mgr_disconnect_def Let_def)
  next
    case False
    then have le: "now - last_heartbeat md \<le> mgr_heartbeat_timeout * usec" by simp
    show ?thesis
    proof (cases "ws_send_text env c (frames ws) Msg_heartbeat_request")
      case True
      with a le show ?thesis by (simp add: mgr_tick_alive mgr_send_delivered)
    next
      case False
      with a le mgr_send_failed [of mst c ws env Msg_heartbeat_request]
      show ?thesis by (simp add: mgr_tick_alive)
    qed
  qed
next
  assume a: "active_connections mst c = Some ws \<and> connection_metadata mst c = Some md"
    and t: "now - last_heartbeat md \<le> mgr_heartbeat_timeout * usec \<and>
            ws_send_text env c (frames ws) Msg_heartbeat_request"
  then show "snd (mgr_heartbeat_tick env now c mst)
           = mst\<lparr>active_connections :=
                   (active_connections mst)
                     (c \<mapsto> ws\<lparr>frames := frames ws @ [(Msg_heartbeat_request, True)]\<rparr>)\<rparr>"
    by (simp add: mgr_tick_alive mgr_send_delivered)
next
  fix c' s
  assume a: "active_connections mst c = Some ws \<and> connection_metadata mst c = Some md"
    and n: "c' \<noteq> c"
  show "active_connections (snd (mgr_heartbeat_tick env now c' mst)) c = Some ws"
    using a by (simp add: mgr_tick_other(1) [OF n])
  show "connection_metadata (snd (mgr_heartbeat_tick env now c' mst)) c = Some md"
    using a by (simp add: mgr_tick_other(2) [OF n])
  show "c \<in> set (members (session_subscriptions (snd (mgr_heartbeat_tick env now c' mst))) s)
          \<longleftrightarrow> c \<in> set (members (session_subscriptions mst) s)"
    by (rule mgr_tick_other(3) [OF n])
qed

theorem C2_witness:
  "reachable st_one \<and> heartbeat_interval st_one = 30 \<and> heartbeat_timeout st_one = 60 \<and>
   ''c1'' \<in> set (connections (fold heartbeat_sweep [30 * usec, 60 * usec] st_one)) \<and>
   ''c1'' \<notin> set (connections (fold heartbeat_sweep [30 * usec, 60 * usec, 90 * usec] st_one)) \<and>
   ''c1'' \<notin> dom (active_connections (snd (mgr_heartbeat_tick env_up (60 * usec + 1) ''c1'' mst_one))) \<and>
   fst (mgr_heartbeat_tick env_up (60 * usec) ''c1'' mst_one) = True \<and>
   ''c1'' \<in> dom (active_connections (snd (mgr_heartbeat_tick env_up (60 * usec) ''c1'' mst_one))) \<and>
   active_connections (snd (mgr_heartbeat_tick env_down (90 * usec) ''c2'' mst_one)) ''c1''
     = active_connections mst_one ''c1''"
proof -
  let ?conn = "the (objects st_one ''c1'')"
  let ?md = "the (connection_metadata mst_one ''c1'')"
  let ?ws = "the (active_connections mst_one ''c1'')"
  have r: "reachable st_one" by (rule reachable_st_one)
  have g: "registry_get st_one ''c1'' = Some ?conn"
    by (simp add: st_one_eq registry_get_def)
  have lp: "last_ping ?conn = 0" and to: "heartbeat_timeout st_one = 60"
    by (simp_all add: st_one_eq)
  have m: "active_connections mst_one ''c1'' = Some ?ws \<and>
           connection_metadata mst_one ''c1'' = Some ?md"
    by (simp add: mst_one_eq)
  have lh: "last_heartbeat ?md = 0" by (simp add: mst_one_eq)
  have up: "ws_send_text env_up ''c1'' (frames ?ws) Msg_heartbeat_request"
    by (simp add: env_up_def)
  note A = C2_heartbeat_eviction [of st_one "''c1''" ?conn "[30 * usec, 60 * usec]" mst_one ?ws ?md
         "60 * usec + 1" env_up]
  note B = C2_heartbeat_eviction [of st_one "''c1''" ?conn "[30 * usec, 60 * usec, 90 * usec]"
         mst_one ?ws ?md "60 * usec" env_up]
  note C = C2_heartbeat_eviction [of st_one "''c1''" ?conn "[]" mst_one ?ws ?md "90 * usec" env_down]
  note A1 = A [THEN conjunct1, THEN mp, OF r]
  note A2 = A [THEN conjunct2, THEN conjunct1, THEN mp, OF g]
  note B2 = B [THEN conjunct2, THEN conjunct1, THEN mp, OF g]
  note A5 = A [THEN conjunct2, THEN conjunct2, THEN conjunct2, THEN conjunct2, THEN mp, OF m]
  note B5 = B [THEN conjunct2, THEN conjunct2, THEN conjunct2, THEN conjunct2, THEN mp, OF m]
  note C5 = C [THEN conjunct2, THEN conjunct2, THEN conjunct2, THEN conjunct2, THEN mp, OF m]
  have 1: "heartbeat_interval st_one = 30" and tm: "heartbeat_timeout st_one = 60"
    using A1 by simp_all
  have 2: "''c1'' \<in> set (connections (fold heartbeat_sweep [30 * usec, 60 * usec] st_one))"
    unfolding A2 by (simp add: lp to usec_def)
  have 3: "''c1'' \<notin> set (connections (fold heartbeat_sweep [30 * usec, 60 * usec, 90 * usec] st_one))"
    unfolding B2 by (simp add: lp to usec_def)
  have gt: "\<not> 60 * usec + 1 - last_heartbeat ?md \<le> mgr_heartbeat_timeout * usec"
    by (simp add: lh usec_def mgr_heartbeat_timeout_def)
  have 4: "''c1'' \<notin> dom (active_connections (snd (mgr_heartbeat_tick env_up (60 * usec + 1) ''c1'' mst_one)))"
    unfolding A5 [THEN conjunct2, THEN conjunct2, THEN conjunct1] using gt by simp
  have le: "60 * usec - last_heartbeat ?md \<le> mgr_heartbeat_timeout * usec"
    by (simp add: lh usec_def mgr_heartbeat_timeout_def)
  have 5: "fst (mgr_heartbeat_tick env_up (60 * usec) ''c1'' mst_one) = True"
    using B5 [THEN conjunct2, THEN conjunct1, THEN mp, OF le] by simp
  have 6: "''c1'' \<in> dom (active_connections (snd (mgr_heartbeat_tick env_up (60 * usec) ''c1'' mst_one)))"
    unfolding B5 [THEN conjunct2, THEN conjunct2, THEN conjunct1] using le up by simp
  have n: "''c2'' \<noteq> ''c1''" by simp
  have "active_connections (snd (mgr_heartbeat_tick env_down (90 * usec) ''c2'' mst_one)) ''c1''
          = Some ?ws"
    using C5 [THEN conjunct2, THEN conjunct2, THEN conjunct2, THEN conjunct2, THEN spec,
              THEN mp, OF n]
    by (rule conjunct1)
  then have 7: "active_connections (snd (mgr_heartbeat_tick env_down (90 * usec) ''c2'' mst_one)) ''c1''
     = active_connections mst_one ''c1''"
    using m by simp
  show ?thesis by (intro conjI r 1 tm 2 3 4 5 6 7)
qed

text \<open>
  A connection that is 30 seconds past its \<^verbatim>\<open>last_heartbeat\<close>, within the timeout of 60,
  is unregistered by the turn of its loop when the \<^verbatim>\<open>heartbeat_request\<close> cannot be
  written.
\<close>

theorem C2_counterexample:
  "mgr_reachable mst_one \<and>
   ''c1'' \<in> dom (active_connections mst_one) \<and>
   30 * usec - last_heartbeat (the (connection_metadata mst_one ''c1''))
     \<le> mgr_heartbeat_timeout * usec \<and>
   ''c1'' \<notin> dom (active_connections
                   (snd (mgr_heartbeat_tick env_down (30 * usec) ''c1'' mst_one)))"
  using mgr_reachable_mst_one
  by (simp add: mst_one_eq mgr_heartbeat_tick_def send_personal_message_def ws_write_def
        mgr_disconnect_def env_down_def usec_def mgr_heartbeat_timeout_def Let_def)

subsection \<open>The service's invariant\<close>

lemma idx_soundD1:
  "idx_sound st \<Longrightarrow> c \<in> set (members (session_connections st) s)
     \<Longrightarrow> \<exists>conn. registry_get st c = Some conn \<and> s \<in> set (subscribed_sessions conn)"
  by (simp add: idx_sound_def)

lemma idx_soundD2:
  "idx_sound st \<Longrightarrow> c \<in> set (members (user_connections st) u)
     \<Longrightarrow> \<exists>conn. registry_get st c = Some conn \<and> user_id conn = Some u"
  by (simp add: idx_sound_def)

lemma idx_soundI:
  assumes "\<And>s c. c \<in> set (members (session_connections st) s)
             \<Longrightarrow> \<exists>conn. registry_get st c = Some conn \<and> s \<in> set (subscribed_sessions conn)"
    and "\<And>u c. c \<in> set (members (user_connections st) u)
             \<Longrightarrow> \<exists>conn. registry_get st c = Some conn \<and> user_id conn = Some u"
  shows "idx_sound st"
  using assms by (simp add: idx_sound_def)

lemma registry_get_SomeD:
  "registry_get st c = Some conn \<Longrightarrow> c \<in> set (connections st) \<and> objects st c = Some conn"
  by (auto simp: registry_get_def split: if_splits)

lemma svc_inv_subscribe:
  assumes inv: "svc_inv st"
  shows "svc_inv (snd (subscribe_session c s st))"
proof (cases "registry_get st c")
  case None
  with inv show ?thesis by (simp add: subscribe_session_def)
next
  case (Some conn)
  let ?conn' = "conn\<lparr>subscribed_sessions := List.insert s (subscribed_sessions conn)\<rparr>"
  let ?st' = "st\<lparr>session_connections := index_add (session_connections st) s c,
                 objects := (objects st)(c \<mapsto> ?conn')\<rparr>"
  have eq: "snd (subscribe_session c s st) = ?st'"
    using Some by (simp add: subscribe_session_def)
  have cin: "c \<in> set (connections st)" and obj: "objects st c = Some conn"
    using registry_get_SomeD [OF Some] by simp_all
  have get_c: "registry_get ?st' c = Some ?conn'"
    using cin by (simp add: registry_get_def)
  have get_o: "\<And>c'. c' \<noteq> c \<Longrightarrow> registry_get ?st' c' = registry_get st c'"
    by (simp add: registry_get_def)
  from inv have ix: "idx_sound st" and so: "store_ok st"
    and d1: "all_distinct (session_connections st)" and d2: "all_distinct (user_connections st)"
    by (simp_all add: svc_inv_def)
  have "idx_sound ?st'"
  proof (rule idx_soundI)
    fix s' c' assume "c' \<in> set (members (session_connections ?st') s')"
    then have m: "(s' = s \<and> c' = c) \<or> c' \<in> set (members (session_connections st) s')"
      by (auto simp: members_index_add split: if_splits)
    show "\<exists>conn. registry_get ?st' c' = Some conn \<and> s' \<in> set (subscribed_sessions conn)"
    proof (cases "c' = c")
      case True
      from m show ?thesis
      proof
        assume "s' = s \<and> c' = c"
        then show ?thesis using get_c by simp
      next
        assume "c' \<in> set (members (session_connections st) s')"
        from idx_soundD1 [OF ix this] True Some
        have "s' \<in> set (subscribed_sessions conn)" by simp
        then show ?thesis using True get_c by simp
      qed
    next
      case False
      with m have "c' \<in> set (members (session_connections st) s')" by simp
      from idx_soundD1 [OF ix this] get_o [OF False] show ?thesis by simp
    qed
  next
    fix u c' assume "c' \<in> set (members (user_connections ?st') u)"
    then have m: "c' \<in> set (members (user_connections st) u)" by simp
    show "\<exists>conn. registry_get ?st' c' = Some conn \<and> user_id conn = Some u"
    proof (cases "c' = c")
      case True
      from idx_soundD2 [OF ix m] True Some have "user_id conn = Some u" by simp
      then show ?thesis using True get_c by simp
    next
      case False
      from idx_soundD2 [OF ix m] get_o [OF False] show ?thesis by simp
    qed
  qed
  moreover have "store_ok ?st'"
    using so obj by (auto simp: store_ok_def)
  moreover have "all_distinct (session_connections ?st')"
    using d1 by (simp add: all_distinct_index_add)
  ultimately show ?thesis using d2 unfolding eq by (simp add: svc_inv_def)
qed

lemma svc_inv_unsubscribe:
  assumes inv: "svc_inv st"
  shows "svc_inv (snd (unsubscribe_session c s st))"
proof (cases "registry_get st c")
  case None
  with inv show ?thesis by (simp add: unsubscribe_session_def)
next
  case (Some conn)
  let ?conn' = "conn\<lparr>subscribed_sessions := removeAll s (subscribed_sessions conn)\<rparr>"
  let ?st' = "st\<lparr>session_connections := index_discard (session_connections st) s c,
                 objects := (objects st)(c \<mapsto> ?conn')\<rparr>"
  have eq: "snd (unsubscribe_session c s st) = ?st'"
    using Some by (simp add: unsubscribe_session_def)
  have cin: "c \<in> set (connections st)" and obj: "objects st c = Some conn"
    using registry_get_SomeD [OF Some] by simp_all
  have get_c: "registry_get ?st' c = Some ?conn'"
    using cin by (simp add: registry_get_def)
  have get_o: "\<And>c'. c' \<noteq> c \<Longrightarrow> registry_get ?st' c' = registry_get st c'"
    by (simp add: registry_get_def)
  from inv have ix: "idx_sound st" and so: "store_ok st"
    and d1: "all_distinct (session_connections st)" and d2: "all_distinct (user_connections st)"
    by (simp_all add: svc_inv_def)
  have "idx_sound ?st'"
  proof (rule idx_soundI)
    fix s' c' assume "c' \<in> set (members (session_connections ?st') s')"
    then have m: "c' \<in> set (members (session_connections st) s')" and ne: "\<not> (s' = s \<and> c' = c)"
      by (auto simp: members_index_discard split: if_splits)
    show "\<exists>conn. registry_get ?st' c' = Some conn \<and> s' \<in> set (subscribed_sessions conn)"
    proof (cases "c' = c")
      case True
      from idx_soundD1 [OF ix m] True Some
      have "s' \<in> set (subscribed_sessions conn)" by simp
      moreover from ne True have "s' \<noteq> s" by simp
      ultimately show ?thesis using True get_c by simp
    next
      case False
      from idx_soundD1 [OF ix m] get_o [OF False] show ?thesis by simp
    qed
  next
    fix u c' assume "c' \<in> set (members (user_connections ?st') u)"
    then have m: "c' \<in> set (members (user_connections st) u)" by simp
    show "\<exists>conn. registry_get ?st' c' = Some conn \<and> user_id conn = Some u"
    proof (cases "c' = c")
      case True
      from idx_soundD2 [OF ix m] True Some have "user_id conn = Some u" by simp
      then show ?thesis using True get_c by simp
    next
      case False
      from idx_soundD2 [OF ix m] get_o [OF False] show ?thesis by simp
    qed
  qed
  moreover have "store_ok ?st'"
    using so obj by (auto simp: store_ok_def)
  moreover have "all_distinct (session_connections ?st')"
    using d1 by (simp add: all_distinct_index_discard)
  ultimately show ?thesis using d2 unfolding eq by (simp add: svc_inv_def)
qed

lemma svc_inv_del_session:
  assumes inv: "svc_inv st"
  shows "svc_inv (st\<lparr>session_connections := (session_connections st)(s := None)\<rparr>)"
proof -
  let ?st' = "st\<lparr>session_connections := (session_connections st)(s := None)\<rparr>"
  from inv have ix: "idx_sound st" and so: "store_ok st"
    and d1: "all_distinct (session_connections st)" and d2: "all_distinct (user_connections st)"
    by (simp_all add: svc_inv_def)
  have get: "\<And>c. registry_get ?st' c = registry_get st c" by (simp add: registry_get_def)
  have "idx_sound ?st'"
  proof (rule idx_soundI)
    fix s' c' assume "c' \<in> set (members (session_connections ?st') s')"
    then have "c' \<in> set (members (session_connections st) s')"
      by (auto simp: members_del split: if_splits)
    from idx_soundD1 [OF ix this] get show
      "\<exists>conn. registry_get ?st' c' = Some conn \<and> s' \<in> set (subscribed_sessions conn)" by simp
  next
    fix u c' assume "c' \<in> set (members (user_connections ?st') u)"
    then have "c' \<in> set (members (user_connections st) u)" by simp
    from idx_soundD2 [OF ix this] get show
      "\<exists>conn. registry_get ?st' c' = Some conn \<and> user_id conn = Some u" by simp
  qed
  moreover have "store_ok ?st'" using so by (simp add: store_ok_def)
  ultimately show ?thesis using d1 d2 by (simp add: svc_inv_def all_distinct_del)
qed

lemma not_registered_not_indexed:
  assumes "idx_sound st" "c \<notin> set (connections st)"
  shows "c \<notin> set (members (session_connections st) s)" "c \<notin> set (members (user_connections st) u)"
  using assms idx_soundD1 [of st c s] idx_soundD2 [of st c u]
  by (auto dest: registry_get_SomeD)

lemma svc_inv_connect:
  assumes inv: "svc_inv st" and fresh: "c \<notin> set (connections st)"
  shows "svc_inv (snd (connect env now c token stoken st))"
proof (cases "ws_accept env c")
  case False
  with inv show ?thesis by (simp add: connect_def)
next
  case True
  define uid where "uid = (case token of
                     None \<Rightarrow> None
                   | Some t \<Rightarrow>
                       (if truthy t
                        then (case get_current_user env t of Inl e \<Rightarrow> None | Inr u \<Rightarrow> u)
                        else None))"
  define ctype where "ctype = (if uid = None then GUEST else AUTHENTICATED)"
  define conn0 where "conn0 = \<lparr>websocket = \<lparr>frames = [], close_calls = []\<rparr>, connection_id = c,
                    conn_type = ctype, user_id = uid, session_token = stoken,
                    connected_at = now, last_ping = now, is_active = True,
                    subscribed_sessions = []\<rparr>"
  define conn' where "conn' = snd (send_message env (Msg_connect c (connection_type_value ctype)) conn0)"
  define uc where "uc = (case uid of
                    None \<Rightarrow> user_connections st
                  | Some u \<Rightarrow> index_add (user_connections st) u c)"
  let ?st' = "st\<lparr>objects := (objects st)(c \<mapsto> conn'),
               connections := dict_set_key (connections st) c,
               user_connections := uc\<rparr>"
  have eq: "snd (connect env now c token stoken st) = ?st'"
    using True by (simp add: connect_def Let_def uid_def ctype_def conn0_def conn'_def uc_def)
  have keeps: "connection_id conn' = c" "user_id conn' = uid"
    using send_message_keeps [of env "Msg_connect c (connection_type_value ctype)" conn0]
    by (simp_all add: conn'_def conn0_def)
  from inv have ix: "idx_sound st" and so: "store_ok st"
    and d1: "all_distinct (session_connections st)" and d2: "all_distinct (user_connections st)"
    by (simp_all add: svc_inv_def)
  have conns: "set (connections ?st') = insert c (set (connections st))"
    by (auto simp: dict_set_key_def)
  have get_c: "registry_get ?st' c = Some conn'"
    using conns by (simp add: registry_get_def)
  have get_o: "\<And>c'. c' \<noteq> c \<Longrightarrow> registry_get ?st' c' = registry_get st c'"
    using conns by (simp add: registry_get_def)
  have "idx_sound ?st'"
  proof (rule idx_soundI)
    fix s' c' assume "c' \<in> set (members (session_connections ?st') s')"
    then have m: "c' \<in> set (members (session_connections st) s')" by simp
    with not_registered_not_indexed(1) [OF ix fresh] have "c' \<noteq> c" by auto
    from idx_soundD1 [OF ix m] get_o [OF this]
    show "\<exists>conn. registry_get ?st' c' = Some conn \<and> s' \<in> set (subscribed_sessions conn)" by simp
  next
    fix u c' assume a: "c' \<in> set (members (user_connections ?st') u)"
    show "\<exists>conn. registry_get ?st' c' = Some conn \<and> user_id conn = Some u"
    proof (cases "c' = c")
      case True
      have "uid = Some u"
      proof (cases uid)
        case None
        with a have "c' \<in> set (members (user_connections st) u)" by (simp add: uc_def)
        with not_registered_not_indexed(2) [OF ix fresh] True show ?thesis by auto
      next
        case (Some u0)
        with a have "c' \<in> set (members (index_add (user_connections st) u0 c) u)"
          by (simp add: uc_def)
        with not_registered_not_indexed(2) [OF ix fresh, of u] True have "u = u0"
          by (auto simp: members_index_add split: if_splits)
        with Some show ?thesis by simp
      qed
      with True get_c keeps show ?thesis by simp
    next
      case False
      with a have "c' \<in> set (members (user_connections st) u)"
        by (cases uid) (auto simp: uc_def members_index_add split: if_splits)
      from idx_soundD2 [OF ix this] get_o [OF False] show ?thesis by simp
    qed
  qed
  moreover have "store_ok ?st'"
    using so keeps conns unfolding store_ok_def by auto
  moreover have "all_distinct (user_connections ?st')"
    using d2 by (cases uid) (simp_all add: uc_def all_distinct_index_add)
  ultimately show ?thesis using d1 unfolding eq by (simp add: svc_inv_def)
qed

lemma close_conn_keeps:
  "connection_id (close_conn code reason conn) = connection_id conn \<and>
   \<not> is_active (close_conn code reason conn)"
  by (simp add: close_conn_def)

lemma svc_inv_disconnect:
  assumes inv: "svc_inv st"
  shows "svc_inv (snd (disconnect c st))"
proof (cases "registry_get st c")
  case None
  with inv show ?thesis by (simp add: disconnect_def)
next
  case (Some conn)
  define uc where "uc = (case user_id conn of
                      None \<Rightarrow> user_connections st
                    | Some u \<Rightarrow> index_discard (user_connections st) u c)"
  define sc where "sc = fold (\<lambda>s d. index_discard d s c) (subscribed_sessions conn)
                     (session_connections st)"
  let ?st' = "st\<lparr>objects := (objects st)(c \<mapsto> close_conn 1000 ''Normal closure'' conn),
                 connections := removeAll c (connections st),
                 user_connections := uc,
                 session_connections := sc\<rparr>"
  have eq: "snd (disconnect c st) = ?st'"
    using Some by (simp add: disconnect_def Let_def uc_def sc_def)
  have obj: "objects st c = Some conn" using registry_get_SomeD [OF Some] by simp
  from inv have ix: "idx_sound st" and so: "store_ok st"
    and d1: "all_distinct (session_connections st)" and d2: "all_distinct (user_connections st)"
    by (simp_all add: svc_inv_def)
  have get_o: "\<And>c'. c' \<noteq> c \<Longrightarrow> registry_get ?st' c' = registry_get st c'"
    by (simp add: registry_get_def)
  have "idx_sound ?st'"
  proof (rule idx_soundI)
    fix s' c' assume "c' \<in> set (members (session_connections ?st') s')"
    then have a: "c' \<in> set (members sc s')" by simp
    then have m: "c' \<in> set (members (session_connections st) s')"
      by (auto simp: sc_def members_fold_discard split: if_splits)
    have "c' \<noteq> c"
    proof
      assume c: "c' = c"
      from idx_soundD1 [OF ix m] c Some have "s' \<in> set (subscribed_sessions conn)" by simp
      with a c show False by (simp add: sc_def members_fold_discard)
    qed
    from idx_soundD1 [OF ix m] get_o [OF this]
    show "\<exists>conn. registry_get ?st' c' = Some conn \<and> s' \<in> set (subscribed_sessions conn)" by simp
  next
    fix u c' assume "c' \<in> set (members (user_connections ?st') u)"
    then have a: "c' \<in> set (members uc u)" by simp
    then have m: "c' \<in> set (members (user_connections st) u)"
      by (cases "user_id conn") (auto simp: uc_def members_index_discard split: if_splits)
    have "c' \<noteq> c"
    proof
      assume c: "c' = c"
      from idx_soundD2 [OF ix m] c Some have "user_id conn = Some u" by simp
      with a c show False by (simp add: uc_def members_index_discard)
    qed
    from idx_soundD2 [OF ix m] get_o [OF this]
    show "\<exists>conn. registry_get ?st' c' = Some conn \<and> user_id conn = Some u" by simp
  qed
  moreover have "store_ok ?st'"
    using so obj close_conn_keeps [of 1000 "''Normal closure''" conn]
    unfolding store_ok_def by auto
  moreover have "all_distinct (session_connections ?st')"
    using d1 by (simp add: sc_def all_distinct_fold_discard)
  moreover have "all_distinct (user_connections ?st')"
    using d2 by (cases "user_id conn") (simp_all add: uc_def all_distinct_index_discard)
  ultimately show ?thesis unfolding eq by (simp add: svc_inv_def)
qed

lemma svc_inv_conn_send: "svc_inv st \<Longrightarrow> svc_inv (snd (conn_send env c m st))"
  using svc_inv_sends_only conn_send_sends_only by blast

lemma svc_inv_broadcast: "svc_inv st \<Longrightarrow> svc_inv (broadcast_to_session env s m excl st)"
  using svc_inv_sends_only broadcast_to_session_sends_only by blast

lemma svc_inv_handle_chat_message: "svc_inv st \<Longrightarrow> svc_inv (handle_chat_message env conn d st)"
  unfolding handle_chat_message_def Let_def
  by (auto split: sum.splits prod.splits option.splits
           intro!: svc_inv_conn_send svc_inv_broadcast svc_inv_subscribe
                   svc_inv_sends_only [OF _ broadcast_stream_sends_only])

lemma svc_inv_handle_session_create:
  "svc_inv st \<Longrightarrow> svc_inv (handle_session_create env conn d st)"
  unfolding handle_session_create_def Let_def
  by (auto split: sum.splits intro!: svc_inv_conn_send svc_inv_subscribe)

lemma svc_inv_handle_session_update:
  "svc_inv st \<Longrightarrow> svc_inv (handle_session_update env conn d st)"
  unfolding handle_session_update_def Let_def
  by (auto split: sum.splits prod.splits option.splits intro!: svc_inv_conn_send svc_inv_broadcast)

lemma svc_inv_handle_session_delete:
  "svc_inv st \<Longrightarrow> svc_inv (handle_session_delete env conn d st)"
  unfolding handle_session_delete_def Let_def
  by (auto split: sum.splits bool.splits
           intro!: svc_inv_conn_send svc_inv_del_session svc_inv_broadcast)

lemma svc_inv_handle_message: "svc_inv st \<Longrightarrow> svc_inv (snd (handle_message env now c msg st))"
  unfolding handle_message_def
  by (auto split: option.splits inbound.splits
           intro!: svc_inv_handle_chat_message svc_inv_handle_session_create
                   svc_inv_handle_session_update svc_inv_handle_session_delete svc_inv_conn_send
                   svc_inv_sends_only [OF _ handle_ping_sends_only]
                   svc_inv_sends_only [OF _ send_error_sends_only])

lemma svc_inv_fold_disconnect:
  "svc_inv st \<Longrightarrow> svc_inv (fold (\<lambda>c s. snd (disconnect c s)) cs st)"
  by (induction cs arbitrary: st) (auto intro: svc_inv_disconnect)

lemma svc_inv_heartbeat_sweep: "svc_inv st \<Longrightarrow> svc_inv (heartbeat_sweep now st)"
  by (simp add: heartbeat_sweep_def svc_inv_fold_disconnect)

lemma svc_inv_init: "svc_inv init_service"
  by (simp add: svc_inv_def idx_sound_def store_ok_def all_distinct_def init_service_def
        members_def)

lemma reachable_inv: "reachable st \<Longrightarrow> svc_inv st"
  by (induction rule: reachable.induct)
     (auto intro: svc_inv_init svc_inv_connect svc_inv_disconnect svc_inv_subscribe
                  svc_inv_unsubscribe svc_inv_broadcast svc_inv_handle_message
                  svc_inv_heartbeat_sweep)

subsection \<open>After unregistering\<close>

lemma send_message_inactive: "\<not> is_active conn \<Longrightarrow> send_message env m conn = (Returned False, conn)"
  by (simp add: send_message_def)

lemma conn_send_unregistered:
  assumes so: "store_ok st" and c: "c \<notin> set (connections st)"
  shows "conn_send env c m st = (Returned False, st)"
proof (cases "objects st c")
  case None
  then show ?thesis by (simp add: conn_send_def)
next
  case (Some conn)
  with so c have "\<not> is_active conn" by (auto simp: store_ok_def)
  then have "send_message env m conn = (Returned False, conn)" by (rule send_message_inactive)
  moreover have "(objects st)(c \<mapsto> conn) = objects st" using Some by (simp add: map_upd_triv)
  ultimately show ?thesis using Some by (simp add: conn_send_def)
qed

lemma send_error_unregistered: "c \<notin> set (connections st) \<Longrightarrow> send_error env c e st = st"
  by (simp add: send_error_def registry_get_def)

lemma disconnect_returns: "fst (disconnect c st) = Returned ()"
  by (auto simp: disconnect_def Let_def split: option.splits)

lemma disconnect_unregisters:
  assumes "store_ok st"
  shows "c \<notin> set (connections (snd (disconnect c st)))"
  using assms by (auto simp: connections_disconnect store_ok_def)

lemma mgr_send_unregistered:
  "c \<notin> dom (active_connections mst) \<Longrightarrow> send_personal_message env c m mst = (Returned (), mst)"
  by (auto simp: send_personal_message_def split: option.splits)

lemma mgr_send_returns_none: "fst (send_personal_message env c m mst) = Returned ()"
  by (auto simp: send_personal_message_def mgr_disconnect_def Let_def
           split: option.splits prod.splits bool.splits)

text \<open>
  C3, as the code has it. In every reachable state, \<^verbatim>\<open>disconnect\<close> returns without
  raising, and after it the identifier is in no session's subscriber set, in no user's
  connection set and not in the registry. A later send to that connection writes nothing,
  changes nothing and does not raise. In the service it reports the failure:
  \<^verbatim>\<open>send_message\<close> on the closed connection object returns \<^verbatim>\<open>False\<close>, and the error
  reply addressed by identifier does nothing. In the manager \<^verbatim>\<open>send_personal_message\<close>
  returns \<^verbatim>\<open>None\<close>, which is its value on every call
  (\<open>mgr_send_returns_none\<close>): its caller is not told that nothing was sent.
\<close>

theorem C3_unregistered_is_gone:
  "(reachable st \<longrightarrow>
      fst (disconnect c st) = Returned () \<and>
      c \<notin> set (connections (snd (disconnect c st))) \<and>
      (\<forall>s. c \<notin> set (members (session_connections (snd (disconnect c st))) s)) \<and>
      (\<forall>u. c \<notin> set (members (user_connections (snd (disconnect c st))) u)) \<and>
      (\<forall>conn. objects (snd (disconnect c st)) c = Some conn \<longrightarrow>
         send_message env m conn = (Returned False, conn)) \<and>
      conn_send env c m (snd (disconnect c st)) = (Returned False, snd (disconnect c st)) \<and>
      send_error env c e (snd (disconnect c st)) = snd (disconnect c st)) \<and>
   (mgr_reachable mst \<longrightarrow>
      fst (mgr_disconnect c mst) = Returned () \<and>
      c \<notin> dom (active_connections (snd (mgr_disconnect c mst))) \<and>
      (\<forall>s. c \<notin> set (members (session_subscriptions (snd (mgr_disconnect c mst))) s)) \<and>
      send_personal_message env c m (snd (mgr_disconnect c mst))
        = (Returned (), snd (mgr_disconnect c mst)))"
proof (intro conjI impI allI)
  show "fst (disconnect c st) = Returned ()" by (rule disconnect_returns)
next
  assume r: "reachable st"
  let ?st' = "snd (disconnect c st)"
  have "svc_inv st" using r by (rule reachable_inv)
  then have inv': "svc_inv ?st'" by (rule svc_inv_disconnect)
  then have ix: "idx_sound ?st'" and so: "store_ok ?st'" by (simp_all add: svc_inv_def)
  show gone: "c \<notin> set (connections ?st')"
    using \<open>svc_inv st\<close> by (simp add: disconnect_unregisters svc_inv_def)
  show "c \<notin> set (members (session_connections ?st') s)" for s
    using not_registered_not_indexed(1) [OF ix gone] .
  show "c \<notin> set (members (user_connections ?st') u)" for u
    using not_registered_not_indexed(2) [OF ix gone] .
  show "send_message env m conn = (Returned False, conn)" if "objects ?st' c = Some conn" for conn
  proof -
    from so gone that have "\<not> is_active conn" by (auto simp: store_ok_def)
    then show ?thesis by (rule send_message_inactive)
  qed
  show "conn_send env c m ?st' = (Returned False, ?st')"
    using so gone by (rule conn_send_unregistered)
  show "send_error env c e ?st' = ?st'" using gone by (rule send_error_unregistered)
next
  show "fst (mgr_disconnect c mst) = Returned ()" by (simp add: mgr_disconnect_def Let_def)
next
  assume r: "mgr_reachable mst"
  show gone: "c \<notin> dom (active_connections (snd (mgr_disconnect c mst)))"
    by (simp add: mgr_disconnect_def Let_def)
  show "c \<notin> set (members (session_subscriptions (snd (mgr_disconnect c mst))) s)" for s
    using mgr_disconnect_clears [OF mgr_reachable_inv [OF r]] .
  show "send_personal_message env c m (snd (mgr_disconnect c mst))
        = (Returned (), snd (mgr_disconnect c mst))"
    using gone by (rule mgr_send_unregistered)
qed

lemma reachable_st_two: "reachable st_two"
  unfolding st_two_def
  by (intro reach_subscribe reach_connect reachable_st_one) (simp add: st_one_eq)

theorem C3_witness:
  "reachable st_two \<and>
   ''c1'' \<in> set (members (session_connections st_two) ''s1'') \<and>
   ''c1'' \<in> set (members (user_connections st_two) ''u1'') \<and>
   ''c1'' \<notin> set (members (session_connections (snd (disconnect ''c1'' st_two))) ''s1'') \<and>
   ''c1'' \<notin> set (members (user_connections (snd (disconnect ''c1'' st_two))) ''u1'') \<and>
   objects (snd (disconnect ''c1'' st_two)) ''c1'' \<noteq> None \<and>
   conn_send env_up ''c1'' Msg_pong (snd (disconnect ''c1'' st_two))
     = (Returned False, snd (disconnect ''c1'' st_two)) \<and>
   mgr_reachable mst_one \<and>
   ''c1'' \<in> set (members (session_subscriptions mst_one) ''s1'') \<and>
   ''c1'' \<notin> set (members (session_subscriptions (snd (mgr_disconnect ''c1'' mst_one))) ''s1'') \<and>
   send_personal_message env_up ''c1'' Msg_pong (snd (mgr_disconnect ''c1'' mst_one))
     = (Returned (), snd (mgr_disconnect ''c1'' mst_one))"
proof -
  have a: "''c1'' \<in> set (members (session_connections st_two) ''s1'')"
    "''c1'' \<in> set (members (user_connections st_two) ''u1'')"
    "objects (snd (disconnect ''c1'' st_two)) ''c1'' \<noteq> None"
    by (simp_all add: st_two_def st_one_eq run_defs)
  have b: "''c1'' \<in> set (members (session_subscriptions mst_one) ''s1'')"
    by (simp add: mst_one_eq members_def)
  show ?thesis
    using a b reachable_st_two mgr_reachable_mst_one
      C3_unregistered_is_gone [of st_two "''c1''" env_up Msg_pong "''x''" mst_one]
    by blast
qed

text \<open>
  The manager's send to the unregistered \<open>c1\<close> returns what its send to the registered
  \<open>c1\<close> returns when the frame is delivered: the result does not report a failure.
\<close>

theorem C3_counterexample:
  "mgr_reachable mst_one \<and>
   ''c1'' \<notin> dom (active_connections (snd (mgr_disconnect ''c1'' mst_one))) \<and>
   fst (send_personal_message env_up ''c1'' Msg_pong (snd (mgr_disconnect ''c1'' mst_one)))
     = Returned () \<and>
   ''c1'' \<in> dom (active_connections mst_one) \<and>
   fst (send_personal_message env_up ''c1'' Msg_pong mst_one) = Returned () \<and>
   received (the (active_connections
                    (snd (send_personal_message env_up ''c1'' Msg_pong mst_one)) ''c1''))
     = [Msg_connection_established ''c1'' ''s1'', Msg_pong]"
  using mgr_reachable_mst_one
  by (simp add: mst_one_eq mgr_send_returns_none send_personal_message_def ws_write_def
        mgr_disconnect_def env_up_def received_def Let_def)

subsection \<open>A chat turn\<close>

lemma stream_never_requested: "\<not> stream_requested req"
  by (cases "req_mode req") (simp_all add: stream_requested_def)

lemma subscribe_registered:
  assumes "registry_get st c = Some conn"
  shows "subscribe_session c s st
           = (True,
              st\<lparr>session_connections := index_add (session_connections st) s c,
                 objects := (objects st)
                   (c \<mapsto> conn\<lparr>subscribed_sessions := List.insert s (subscribed_sessions conn)\<rparr>)\<rparr>)"
  using assms by (simp add: subscribe_session_def)

lemma chat_response_frame_fails:
  "chat_response_frame resp = Inl (no_attribute ''ChatResponse'' ''ai_message_id'')"
  by (simp add: chat_response_frame_def chat_response_attr_def)

lemma session_create_frame_fails:
  "session_create_frame resp = Inl (no_attribute ''ChatSessionResponse'' ''session_token'')"
  by (simp add: session_create_frame_def session_response_attr_def)

lemma session_update_frame_fails:
  "session_update_frame u = Inl (no_attribute ''ChatSessionResponse'' ''session_status'')"
  by (simp add: session_update_frame_def updated_session_attr_def)

lemma handle_message_chat:
  assumes "registry_get st c = Some conn" "is_active conn" "connection_id conn = c"
    "parse_chat_request env d = Inr req"
  shows "handle_message env now c (Dict_msg (Some ''chat_message'') d) st
           = (Returned (),
              (case chat_send_message env req (user_id conn) (session_token conn) of
                 Inl e \<Rightarrow>
                   snd (conn_send env c (Msg_chat_error e)
                          (snd (subscribe_session c (str_optional (req_session_id req)) st)))
               | Inr resp \<Rightarrow>
                   (case chat_response_frame resp of
                      Inl e \<Rightarrow>
                        snd (conn_send env c (Msg_chat_error e)
                               (snd (subscribe_session c (str_optional (req_session_id req)) st)))
                    | Inr m \<Rightarrow>
                        broadcast_to_session env (str_optional (req_session_id req)) m None
                          (snd (subscribe_session c (str_optional (req_session_id req)) st)))))"
  using assms
  by (simp add: handle_message_def handle_chat_message_def Let_def stream_never_requested
           split: sum.splits)

lemma conn_send_objects:
  assumes "objects st c = Some conn"
  shows "snd (conn_send env c m st) = st\<lparr>objects := (objects st)(c \<mapsto> snd (send_message env m conn))\<rparr>"
  using assms by (simp add: conn_send_def split: prod.splits)

lemma frames_send_message:
  "is_active conn \<Longrightarrow>
   frames (websocket (snd (send_message env m conn)))
     = frames (websocket conn) @ [(m, ws_send_text env (connection_id conn) (frames (websocket conn)) m)]"
  by (cases "ws_send_text env (connection_id conn) (frames (websocket conn)) m")
     (simp_all add: send_message_def ws_write_def)

lemma frames_after_broadcast:
  "frames (websocket (after_broadcast env m conn))
     = (if is_active conn
        then frames (websocket conn)
               @ [(m, ws_send_text env (connection_id conn) (frames (websocket conn)) m)]
        else frames (websocket conn))"
  by (simp add: after_broadcast_def frames_send_message)

lemma objects_broadcast_one:
  "objects (broadcast_one env m None a st) c'
     = (if c' = a \<and> a \<in> set (connections st)
        then map_option (after_broadcast env m) (objects st a) else objects st c')"
  by (auto simp: broadcast_one_def excluded_def registry_get_def conn_send_def after_broadcast_def
           split: option.splits prod.splits)

lemma connections_broadcast_one: "connections (broadcast_one env m excl a st) = connections st"
  using broadcast_one_sends_only [of st env m excl a] by (simp add: sends_only_def)

lemma objects_fold_broadcast:
  "distinct cs \<Longrightarrow>
   objects (fold (broadcast_one env m None) cs st) c'
     = (if c' \<in> set cs \<and> c' \<in> set (connections st)
        then map_option (after_broadcast env m) (objects st c') else objects st c')"
proof (induction cs arbitrary: st)
  case Nil
  show ?case by simp
next
  case (Cons a cs)
  then have d: "distinct cs" and na: "a \<notin> set cs" by simp_all
  have "objects (fold (broadcast_one env m None) (a # cs) st) c'
          = objects (fold (broadcast_one env m None) cs (broadcast_one env m None a st)) c'"
    by simp
  also have "\<dots> = (if c' \<in> set cs \<and> c' \<in> set (connections st)
        then map_option (after_broadcast env m) (objects (broadcast_one env m None a st) c')
        else objects (broadcast_one env m None a st) c')"
    using Cons.IH [OF d, of "broadcast_one env m None a st"]
    by (simp add: connections_broadcast_one)
  also have "\<dots> = (if c' \<in> set (a # cs) \<and> c' \<in> set (connections st)
        then map_option (after_broadcast env m) (objects st c') else objects st c')"
    using na by (auto simp: objects_broadcast_one)
  finally show ?case .
qed

lemma objects_broadcast_to_session:
  "all_distinct (session_connections st) \<Longrightarrow>
   objects (broadcast_to_session env s m None st) c'
     = (if c' \<in> set (members (session_connections st) s) \<and> c' \<in> set (connections st)
        then map_option (after_broadcast env m) (objects st c') else objects st c')"
  by (simp add: broadcast_to_session_def objects_fold_broadcast distinct_members)

lemma session_connections_broadcast:
  "session_connections (broadcast_to_session env s m excl st) = session_connections st"
  using broadcast_to_session_sends_only [of st env s m excl] by (simp add: sends_only_def)

lemma session_connections_conn_send:
  "session_connections (snd (conn_send env c m st)) = session_connections st"
  using conn_send_sends_only [of st env c m] by (simp add: sends_only_def)

lemma reachable_conn_id:
  "reachable st \<Longrightarrow> registry_get st c = Some conn \<Longrightarrow> connection_id conn = c"
  using reachable_inv [of st] registry_get_SomeD [of st c conn]
  by (auto simp: svc_inv_def store_ok_def)

lemma sent_to_append: "frames ws' = frames ws @ [(m, ok)] \<Longrightarrow> sent_to ws' = sent_to ws @ [m]"
  by (simp add: sent_to_def)

lemma received_append:
  "frames ws' = frames ws @ [(m, ok)] \<Longrightarrow> received ws' = received ws @ (if ok then [m] else [])"
  by (simp add: received_def)

text \<open>
  C9. When a registered, active connection sends a \<^verbatim>\<open>chat_message\<close> whose data
  validates, the handler subscribes the connection to the session of the message before it
  calls the Chat Collaborator: the subscription succeeds, the subscriber set of the session
  becomes the old one with the sender added, the sender's object records the session, and
  the rest of the turn (the collaborator's call and the broadcast of its answer, or the
  error reply) runs on the state so obtained. The sender is in the subscriber set of the
  session when the turn ends, whether or not it ever asked to be subscribed.
\<close>

theorem C9_sender_subscribed_first:
  fixes st :: service and env :: env
  defines "turn \<equiv> \<lambda>now c d. snd (handle_message env now c (Dict_msg (Some ''chat_message'') d) st)"
  assumes "reachable st" and "registry_get st c = Some conn" and "is_active conn"
    and "parse_chat_request env d = Inr req"
  shows "fst (subscribe_session c (str_optional (req_session_id req)) st) = True \<and>
         set (members (session_connections
                (snd (subscribe_session c (str_optional (req_session_id req)) st)))
              (str_optional (req_session_id req)))
           = insert c (set (members (session_connections st) (str_optional (req_session_id req)))) \<and>
         (\<exists>conn1. registry_get (snd (subscribe_session c (str_optional (req_session_id req)) st)) c
                    = Some conn1 \<and>
                  is_active conn1 \<and>
                  str_optional (req_session_id req) \<in> set (subscribed_sessions conn1)) \<and>
         turn now c d
           = (case chat_send_message env req (user_id conn) (session_token conn) of
                Inl e \<Rightarrow>
                  snd (conn_send env c (Msg_chat_error e)
                         (snd (subscribe_session c (str_optional (req_session_id req)) st)))
              | Inr resp \<Rightarrow>
                  (case chat_response_frame resp of
                     Inl e \<Rightarrow>
                       snd (conn_send env c (Msg_chat_error e)
                              (snd (subscribe_session c (str_optional (req_session_id req)) st)))
                   | Inr m \<Rightarrow>
                       broadcast_to_session env (str_optional (req_session_id req)) m None
                         (snd (subscribe_session c (str_optional (req_session_id req)) st)))) \<and>
         c \<in> set (members (session_connections (turn now c d))
                    (str_optional (req_session_id req)))"
proof -
  let ?s = "str_optional (req_session_id req)"
  let ?st1 = "snd (subscribe_session c ?s st)"
  have cid: "connection_id conn = c" using assms(2,3) by (rule reachable_conn_id)
  have cin: "c \<in> set (connections st)" using registry_get_SomeD [OF assms(3)] by simp
  note sub = subscribe_registered [OF assms(3), of ?s]
  have 1: "fst (subscribe_session c ?s st) = True" by (simp add: sub)
  have 2: "set (members (session_connections ?st1) ?s)
             = insert c (set (members (session_connections st) ?s))"
    by (simp add: sub members_index_add)
  have 3: "\<exists>conn1. registry_get ?st1 c = Some conn1 \<and> is_active conn1 \<and>
                   ?s \<in> set (subscribed_sessions conn1)"
    using cin assms(4) by (simp add: sub registry_get_def)
  have 4: "turn now c d
           = (case chat_send_message env req (user_id conn) (session_token conn) of
                Inl e \<Rightarrow> snd (conn_send env c (Msg_chat_error e) ?st1)
              | Inr resp \<Rightarrow>
                  (case chat_response_frame resp of
                     Inl e \<Rightarrow> snd (conn_send env c (Msg_chat_error e) ?st1)
                   | Inr m \<Rightarrow> broadcast_to_session env ?s m None ?st1))"
    unfolding turn_def
    by (simp add: handle_message_chat [OF assms(3) assms(4) cid assms(5)])
  have 5: "c \<in> set (members (session_connections (turn now c d)) ?s)"
    unfolding 4 using 2
    by (auto split: sum.splits simp: session_connections_broadcast session_connections_conn_send)
  from 1 2 3 4 5 show ?thesis by blast
qed

text \<open>
  C6. When the Chat Collaborator raises during the turn of connection \<open>c1\<close>, exactly one
  frame is handed to the socket of \<open>c1\<close>, the \<^verbatim>\<open>chat_error\<close> with the text of the
  exception (\<open>c1\<close> receives it unless that write fails), and every other connection,
  subscribed to the session or not, is left exactly as it was: nothing is written to it.
  The handler compares the request's mode with \<^verbatim>\<open>"STREAM"\<close> while the values of
  \<^verbatim>\<open>ChatMode\<close> are lower-case (\<open>stream_never_requested\<close>), so every turn calls
  \<^verbatim>\<open>send_message\<close> of the collaborator and no chunk is ever broadcast before an error.
\<close>

theorem C6_collaborator_error_unicast:
  fixes st :: service and env :: env
  defines "turn \<equiv> \<lambda>now c d. snd (handle_message env now c (Dict_msg (Some ''chat_message'') d) st)"
  assumes "reachable st" and "registry_get st c1 = Some conn" and "is_active conn"
    and "parse_chat_request env d = Inr req"
    and "chat_send_message env req (user_id conn) (session_token conn) = Inl e"
  shows "(\<exists>conn'. objects (turn now c1 d) c1 = Some conn' \<and>
            sent_to (websocket conn') = sent_to (websocket conn) @ [Msg_chat_error e] \<and>
            received (websocket conn')
              = received (websocket conn)
                  @ (if ws_send_text env c1 (frames (websocket conn)) (Msg_chat_error e)
                     then [Msg_chat_error e] else [])) \<and>
         (\<forall>c2. c2 \<noteq> c1 \<longrightarrow> objects (turn now c1 d) c2 = objects st c2)"
proof -
  let ?s = "str_optional (req_session_id req)"
  let ?st1 = "snd (subscribe_session c1 ?s st)"
  let ?conn1 = "conn\<lparr>subscribed_sessions := List.insert ?s (subscribed_sessions conn)\<rparr>"
  let ?m = "Msg_chat_error e"
  have cid: "connection_id conn = c1" using assms(2,3) by (rule reachable_conn_id)
  note sub = subscribe_registered [OF assms(3), of ?s]
  have o1: "objects ?st1 c1 = Some ?conn1" by (simp add: sub)
  have t: "turn now c1 d = snd (conn_send env c1 ?m ?st1)"
    unfolding turn_def
    by (simp add: handle_message_chat [OF assms(3) assms(4) cid assms(5)] assms(6))
  have t': "turn now c1 d = ?st1\<lparr>objects := (objects ?st1)(c1 \<mapsto> snd (send_message env ?m ?conn1))\<rparr>"
    unfolding t by (rule conn_send_objects [OF o1])
  have fr: "frames (websocket (snd (send_message env ?m ?conn1)))
              = frames (websocket conn) @ [(?m, ws_send_text env c1 (frames (websocket conn)) ?m)]"
    using frames_send_message [of ?conn1 env ?m] assms(4) cid by simp
  have a: "\<exists>conn'. objects (turn now c1 d) c1 = Some conn' \<and>
            sent_to (websocket conn') = sent_to (websocket conn) @ [?m] \<and>
            received (websocket conn')
              = received (websocket conn)
                  @ (if ws_send_text env c1 (frames (websocket conn)) ?m then [?m] else [])"
    using sent_to_append [OF fr] received_append [OF fr] by (simp add: t')
  have b: "\<forall>c2. c2 \<noteq> c1 \<longrightarrow> objects (turn now c1 d) c2 = objects st c2"
    by (simp add: t' sub)
  from a b show ?thesis by blast
qed

text \<open>
  C1, as the code has it. When the Chat Collaborator answers the turn of a registered,
  active connection \<open>c\<close> on session \<open>s\<close>, its answer is a \<^verbatim>\<open>ChatResponse\<close>, and the handler
  builds the \<^verbatim>\<open>chat_response\<close> frame from the attributes \<^verbatim>\<open>ai_message_id\<close>,
  \<^verbatim>\<open>ai_role_name\<close> and \<^verbatim>\<open>timestamp\<close>, which that class does not declare. The read of
  \<^verbatim>\<open>ai_message_id\<close> raises inside the \<^verbatim>\<open>try\<close>, so the turn ends in the \<^verbatim>\<open>except\<close> branch:
  \<open>c\<close> is subscribed to \<open>s\<close>, one \<^verbatim>\<open>chat_error\<close> with the text of that exception is
  handed to the socket of \<open>c\<close>, and every other connection, subscribed to \<open>s\<close> or not, is
  left exactly as it was. No subscriber is sent a \<^verbatim>\<open>chat_response\<close>; and since the
  stream branch is never taken (\<open>stream_never_requested\<close>), none is sent a
  \<^verbatim>\<open>chat_stream\<close> chunk either.
\<close>

theorem C1_answered_turn_is_not_broadcast:
  fixes st :: service and env :: env
  defines "turn \<equiv> \<lambda>now c d. snd (handle_message env now c (Dict_msg (Some ''chat_message'') d) st)"
  assumes "reachable st" and "registry_get st c = Some conn" and "is_active conn"
    and "parse_chat_request env d = Inr req"
    and "chat_send_message env req (user_id conn) (session_token conn) = Inr resp"
  shows "set (members (session_connections (turn now c d)) (str_optional (req_session_id req)))
           = insert c (set (members (session_connections st) (str_optional (req_session_id req)))) \<and>
         (\<exists>conn'. objects (turn now c d) c = Some conn' \<and>
            frames (websocket conn')
              = frames (websocket conn)
                  @ [(Msg_chat_error (no_attribute ''ChatResponse'' ''ai_message_id''),
                      ws_send_text env c (frames (websocket conn))
                        (Msg_chat_error (no_attribute ''ChatResponse'' ''ai_message_id'')))]) \<and>
         (\<forall>c'. c' \<noteq> c \<longrightarrow> objects (turn now c d) c' = objects st c')"
proof -
  let ?s = "str_optional (req_session_id req)"
  let ?st1 = "snd (subscribe_session c ?s st)"
  let ?conn1 = "conn\<lparr>subscribed_sessions := List.insert ?s (subscribed_sessions conn)\<rparr>"
  let ?m = "Msg_chat_error (no_attribute ''ChatResponse'' ''ai_message_id'')"
  have cid: "connection_id conn = c" using assms(2,3) by (rule reachable_conn_id)
  note sub = subscribe_registered [OF assms(3), of ?s]
  have o1: "objects ?st1 c = Some ?conn1" by (simp add: sub)
  have t: "turn now c d = snd (conn_send env c ?m ?st1)"
    unfolding turn_def
    by (simp add: handle_message_chat [OF assms(3) assms(4) cid assms(5)] assms(6)
          chat_response_frame_fails)
  have t': "turn now c d = ?st1\<lparr>objects := (objects ?st1)(c \<mapsto> snd (send_message env ?m ?conn1))\<rparr>"
    unfolding t by (rule conn_send_objects [OF o1])
  have mem: "set (members (session_connections (turn now c d)) ?s)
               = insert c (set (members (session_connections st) ?s))"
    unfolding t by (simp add: session_connections_conn_send sub members_index_add)
  have fr: "frames (websocket (snd (send_message env ?m ?conn1)))
              = frames (websocket conn) @ [(?m, ws_send_text env c (frames (websocket conn)) ?m)]"
    using frames_send_message [of ?conn1 env ?m] assms(4) cid by simp
  have a: "\<exists>conn'. objects (turn now c d) c = Some conn' \<and>
            frames (websocket conn')
              = frames (websocket conn) @ [(?m, ws_send_text env c (frames (websocket conn)) ?m)]"
    using fr by (simp add: t')
  have b: "\<forall>c'. c' \<noteq> c \<longrightarrow> objects (turn now c d) c' = objects st c'"
    by (simp add: t' sub)
  from mem a b show ?thesis by blast
qed

lemma st_two_eq:
  "st_two =
     \<lparr>objects = [''c1'' \<mapsto>
        \<lparr>websocket = \<lparr>frames = [(Msg_connect ''c1'' ''authenticated'', True)], close_calls = []\<rparr>,
         connection_id = ''c1'', conn_type = AUTHENTICATED, user_id = Some ''u1'',
         session_token = None, connected_at = 0, last_ping = 0, is_active = True,
         subscribed_sessions = [''s1'']\<rparr>,
        ''c2'' \<mapsto>
        \<lparr>websocket = \<lparr>frames = [(Msg_connect ''c2'' ''guest'', True)], close_calls = []\<rparr>,
         connection_id = ''c2'', conn_type = GUEST, user_id = None,
         session_token = Some ''guest-token'', connected_at = 0, last_ping = 0, is_active = True,
         subscribed_sessions = [''s1'']\<rparr>],
      connections = [''c1'', ''c2''],
      user_connections = [''u1'' \<mapsto> [''c1'']],
      session_connections = [''s1'' \<mapsto> [''c2'', ''c1'']],
      heartbeat_interval = 30, heartbeat_timeout = 60\<rparr>"
  unfolding st_two_def st_one_eq
  by (simp add: subscribe_session_def connect_def env_up_def registry_get_def dict_set_key_def
        index_add_def send_message_def ws_write_def Let_def)

lemma env_up_chat:
  "parse_chat_request env_up d = Inr (sample_request d)"
  "chat_send_message env_up (sample_request d) u t = Inr (sample_response d)"
  "ws_send_text env_up c fs m"
  by (simp_all add: env_up_def sample_request_def sample_response_def str_optional_def)

lemma env_chat_down_chat:
  "parse_chat_request env_chat_down d = Inr (sample_request d)"
  "chat_send_message env_chat_down (sample_request d) u t = Inl ''collaborator down''"
  "ws_send_text env_chat_down c fs m"
  by (simp_all add: env_chat_down_def env_up_def sample_request_def)

lemma sample_request_session: "str_optional (req_session_id (sample_request d)) = d"
  by (simp add: sample_request_def str_optional_def)

theorem C9_witness:
  "reachable st_one \<and>
   ''c1'' \<notin> set (members (session_connections st_one) ''s2'') \<and>
   ''c1'' \<in> set (members (session_connections
            (snd (handle_message env_up 1 ''c1'' (Dict_msg (Some ''chat_message'') ''s2'') st_one)))
          ''s2'')"
proof -
  let ?conn = "the (objects st_one ''c1'')"
  have g: "registry_get st_one ''c1'' = Some ?conn" and a: "is_active ?conn"
    and n: "''c1'' \<notin> set (members (session_connections st_one) ''s2'')"
    by (simp_all add: st_one_eq registry_get_def members_def)
  note T = C9_sender_subscribed_first
         [where now = 1 and d = "''s2''", OF reachable_st_one g a env_up_chat(1)]
  from T have "''c1'' \<in> set (members (session_connections
            (snd (handle_message env_up 1 ''c1'' (Dict_msg (Some ''chat_message'') ''s2'') st_one)))
          (str_optional (req_session_id (sample_request ''s2''))))"
    by blast
  then have "''c1'' \<in> set (members (session_connections
            (snd (handle_message env_up 1 ''c1'' (Dict_msg (Some ''chat_message'') ''s2'') st_one)))
          ''s2'')"
    by (simp only: sample_request_session)
  with reachable_st_one n show ?thesis by blast
qed

theorem C6_witness:
  "reachable st_two \<and>
   (\<exists>conn'. objects (snd (handle_message env_chat_down 1 ''c1''
                            (Dict_msg (Some ''chat_message'') ''s1'') st_two)) ''c1'' = Some conn' \<and>
      sent_to (websocket conn')
        = [Msg_connect ''c1'' ''authenticated'', Msg_chat_error ''collaborator down'']) \<and>
   ''c2'' \<in> set (members (session_connections st_two) ''s1'') \<and>
   objects (snd (handle_message env_chat_down 1 ''c1''
                   (Dict_msg (Some ''chat_message'') ''s1'') st_two)) ''c2''
     = objects st_two ''c2''"
proof -
  let ?conn = "the (objects st_two ''c1'')"
  let ?st' = "snd (handle_message env_chat_down 1 ''c1'' (Dict_msg (Some ''chat_message'') ''s1'') st_two)"
  have g: "registry_get st_two ''c1'' = Some ?conn" and a: "is_active ?conn"
    and s: "sent_to (websocket ?conn) = [Msg_connect ''c1'' ''authenticated'']"
    and m: "''c2'' \<in> set (members (session_connections st_two) ''s1'')"
    by (simp_all add: st_two_eq registry_get_def members_def sent_to_def)
  note T = C6_collaborator_error_unicast
         [where now = 1 and d = "''s1''",
          OF reachable_st_two g a env_chat_down_chat(1) env_chat_down_chat(2)]
  from T obtain conn' where c: "objects ?st' ''c1'' = Some conn'"
    "sent_to (websocket conn') = sent_to (websocket ?conn) @ [Msg_chat_error ''collaborator down'']"
    by blast
  from c(2) have "sent_to (websocket conn')
        = [Msg_connect ''c1'' ''authenticated'', Msg_chat_error ''collaborator down'']"
    by (simp add: s)
  with c(1) have 1: "\<exists>conn'. objects ?st' ''c1'' = Some conn' \<and>
      sent_to (websocket conn')
        = [Msg_connect ''c1'' ''authenticated'', Msg_chat_error ''collaborator down'']"
    by blast
  from T have 2: "objects ?st' ''c2'' = objects st_two ''c2''" by simp
  from reachable_st_two 1 m 2 show ?thesis by blast
qed

text \<open>
  In \<open>st_two\<close> the connections \<open>c1\<close> and \<open>c2\<close> are subscribed to \<open>s1\<close>, both are marked
  active and every write succeeds. When \<open>c1\<close> sends a chat message for \<open>s1\<close> and the Chat
  Collaborator answers, \<open>c1\<close> is sent a \<^verbatim>\<open>chat_error\<close> and \<open>c2\<close> is sent nothing.
\<close>

theorem C1_witness:
  "reachable st_two \<and>
   set (members (session_connections st_two) ''s1'') = {''c1'', ''c2''} \<and>
   is_active (the (objects st_two ''c1'')) \<and> is_active (the (objects st_two ''c2'')) \<and>
   chat_send_message env_up (sample_request ''s1'') (Some ''u1'') None
     = Inr (sample_response ''s1'') \<and>
   set (members (session_connections
          (snd (handle_message env_up 1 ''c1'' (Dict_msg (Some ''chat_message'') ''s1'') st_two)))
        ''s1'') = {''c1'', ''c2''} \<and>
   (\<exists>conn'. objects (snd (handle_message env_up 1 ''c1''
                            (Dict_msg (Some ''chat_message'') ''s1'') st_two)) ''c1'' = Some conn' \<and>
      frames (websocket conn')
        = [(Msg_connect ''c1'' ''authenticated'', True),
           (Msg_chat_error (no_attribute ''ChatResponse'' ''ai_message_id''), True)]) \<and>
   objects (snd (handle_message env_up 1 ''c1'' (Dict_msg (Some ''chat_message'') ''s1'') st_two))
       ''c2''
     = objects st_two ''c2'' \<and>
   frames (websocket (the (objects st_two ''c2''))) = [(Msg_connect ''c2'' ''guest'', True)]"
proof -
  let ?conn = "the (objects st_two ''c1'')"
  let ?st' = "snd (handle_message env_up 1 ''c1'' (Dict_msg (Some ''chat_message'') ''s1'') st_two)"
  let ?m = "Msg_chat_error (no_attribute ''ChatResponse'' ''ai_message_id'')"
  have g: "registry_get st_two ''c1'' = Some ?conn" and a: "is_active ?conn"
    and a2: "is_active (the (objects st_two ''c2''))"
    and f1: "frames (websocket ?conn) = [(Msg_connect ''c1'' ''authenticated'', True)]"
    and f2: "frames (websocket (the (objects st_two ''c2''))) = [(Msg_connect ''c2'' ''guest'', True)]"
    by (simp_all add: st_two_eq registry_get_def)
  have m: "set (members (session_connections st_two) ''s1'') = {''c1'', ''c2''}"
    by (auto simp: st_two_eq members_def)
  note T = C1_answered_turn_is_not_broadcast
         [where now = 1 and d = "''s1''",
          OF reachable_st_two g a env_up_chat(1) env_up_chat(2), unfolded sample_request_session]
  have T1: "set (members (session_connections ?st') ''s1'')
              = insert ''c1'' (set (members (session_connections st_two) ''s1''))"
    using T by (rule conjunct1)
  have T2: "\<exists>conn'. objects ?st' ''c1'' = Some conn' \<and>
     frames (websocket conn')
       = frames (websocket ?conn) @ [(?m, ws_send_text env_up ''c1'' (frames (websocket ?conn)) ?m)]"
    using T by (rule conjunct1 [OF conjunct2])
  have T3: "\<forall>c'. c' \<noteq> ''c1'' \<longrightarrow> objects ?st' c' = objects st_two c'"
    using T by (rule conjunct2 [OF conjunct2])
  have 1: "set (members (session_connections ?st') ''s1'') = {''c1'', ''c2''}"
    unfolding T1 m by simp
  from T2 obtain conn' where c: "objects ?st' ''c1'' = Some conn'"
    "frames (websocket conn')
       = frames (websocket ?conn) @ [(?m, ws_send_text env_up ''c1'' (frames (websocket ?conn)) ?m)]"
    by (elim exE conjE)
  from c(2) have "frames (websocket conn') = [(Msg_connect ''c1'' ''authenticated'', True), (?m, True)]"
    by (simp only: f1 env_up_chat(3) append.simps)
  with c(1) have 2: "\<exists>conn'. objects ?st' ''c1'' = Some conn' \<and>
      frames (websocket conn') = [(Msg_connect ''c1'' ''authenticated'', True), (?m, True)]"
    by (intro exI conjI)
  have 3: "objects ?st' ''c2'' = objects st_two ''c2''" using T3 by simp
  have 4: "chat_send_message env_up (sample_request ''s1'') (Some ''u1'') None
     = Inr (sample_response ''s1'')" by (rule env_up_chat(2))
  show ?thesis
    by (intro conjI reachable_st_two m a a2 4 1 2 3 f2)
qed

end
